theory Spec2Isabelle
  imports Complex_Main "HOL-Library.Word"
begin

unbundle bit_operations_syntax

section \<open>Python values used by ble-pics-viewer.py\<close>

text \<open>
  The advertisement payload is \<open>list(data_bytes)\<close>: a list of integers in 0..255, here a
  list of 8-bit words. A Python \<open>str\<close> is a sequence of Unicode code points, here a list
  of naturals; the hexadecimal intersection id only holds ASCII and is a HOL string.
  A \<open>datetime\<close> is a count of microseconds, a \<open>timedelta\<close> a difference of two.
  A \<open>float\<close> is a binary64 number; a finite one is held as the rational it denotes.
\<close>

type_synonym byte = "8 word"
type_synonym py_str = "nat list"
type_synonym timestamp = int
type_synonym py_float = rat

datatype py_exception = IndexError | KeyError | StructError

text \<open>A call either returns a value or raises.\<close>

datatype 'a outcome = Raise py_exception | Return 'a

definition py_index :: "'a list \<Rightarrow> nat \<Rightarrow> 'a outcome" where
  \<comment> \<open>\<open>xs[i]\<close> for a non-negative index\<close>
  "py_index xs i = (if i < length xs then Return (xs ! i) else Raise IndexError)"

definition py_slice :: "'a list \<Rightarrow> nat \<Rightarrow> nat \<Rightarrow> 'a list" where
  \<comment> \<open>\<open>xs[i:j]\<close> for non-negative bounds: never raises, shorter when the list ends early\<close>
  "py_slice xs i j = take (j - i) (drop i xs)"

subsection \<open>\<open>hex(num)[2:].upper().zfill(2)\<close>\<close>

definition hex_digit :: "nat \<Rightarrow> char" where
  "hex_digit d = ''0123456789abcdef'' ! d"

fun hex_digits :: "nat \<Rightarrow> string" where
  \<comment> \<open>\<open>hex(num)[2:]\<close>: lower-case digits, no leading zero, one digit for 0\<close>
  "hex_digits n = (if n < 16 then [hex_digit n] else hex_digits (n div 16) @ [hex_digit (n mod 16)])"

declare hex_digits.simps [simp del]

definition upper_char :: "char \<Rightarrow> char" where
  "upper_char c =
     (let n = (of_char c :: nat) in if 97 \<le> n \<and> n \<le> 122 then char_of (n - 32) else c)"

definition zfill :: "nat \<Rightarrow> string \<Rightarrow> string" where
  \<comment> \<open>on a string without sign\<close>
  "zfill w s = replicate (w - length s) CHR ''0'' @ s"

definition hex2 :: "byte \<Rightarrow> string" where
  "hex2 num = zfill 2 (map upper_char (hex_digits (unat num)))"

subsection \<open>\<open>bytes.decode(errors='ignore')\<close>: UTF-8, invalid bytes skipped\<close>

definition is_cont :: "byte \<Rightarrow> bool" where
  "is_cont c = (0x80 \<le> c \<and> c < 0xC0)"

definition cp2 :: "byte \<Rightarrow> byte \<Rightarrow> nat" where
  "cp2 c c2 = (unat c - 0xC0) * 64 + (unat c2 - 0x80)"

definition cp3 :: "byte \<Rightarrow> byte \<Rightarrow> byte \<Rightarrow> nat" where
  "cp3 c c2 c3 = (unat c - 0xE0) * 4096 + (unat c2 - 0x80) * 64 + (unat c3 - 0x80)"

definition cp4 :: "byte \<Rightarrow> byte \<Rightarrow> byte \<Rightarrow> byte \<Rightarrow> nat" where
  "cp4 c c2 c3 c4 =
     (unat c - 0xF0) * 262144 + (unat c2 - 0x80) * 4096 + (unat c3 - 0x80) * 64 + (unat c4 - 0x80)"

definition bad_second :: "byte \<Rightarrow> byte \<Rightarrow> bool" where
  \<comment> \<open>the second byte cannot follow this lead byte: not a continuation byte, an overlong
      form (E0, F0), a surrogate (ED) or a code point above 10FFFF (F4)\<close>
  "bad_second c c2 =
     (\<not> is_cont c2 \<or> (c = 0xE0 \<and> c2 < 0xA0) \<or> (c = 0xED \<and> 0xA0 \<le> c2)
      \<or> (c = 0xF0 \<and> c2 < 0x90) \<or> (c = 0xF4 \<and> 0x90 \<le> c2))"

text \<open>
  The decoder reads one sequence at the front. An invalid lead byte is skipped alone; an
  invalid continuation byte makes the decoder skip the bytes before it and go on at that
  byte; a sequence cut off by the end of the input is skipped whole.
\<close>

fun utf8_ignore :: "byte list \<Rightarrow> py_str" where
  "utf8_ignore [] = []"
| "utf8_ignore (c # s) =
     (if c < 0x80 then unat c # utf8_ignore s
      else if c < 0xC2 then utf8_ignore s
      else if c < 0xE0 then
        (case s of
           [] \<Rightarrow> []
         | c2 # s2 \<Rightarrow> if \<not> is_cont c2 then utf8_ignore s else cp2 c c2 # utf8_ignore s2)
      else if c < 0xF0 then
        (case s of
           [] \<Rightarrow> []
         | c2 # s2 \<Rightarrow>
             if bad_second c c2 then utf8_ignore s
             else (case s2 of
                     [] \<Rightarrow> []
                   | c3 # s3 \<Rightarrow>
                       if \<not> is_cont c3 then utf8_ignore s2
                       else cp3 c c2 c3 # utf8_ignore s3))
      else if c < 0xF5 then
        (case s of
           [] \<Rightarrow> []
         | c2 # s2 \<Rightarrow>
             if bad_second c c2 then utf8_ignore s
             else (case s2 of
                     [] \<Rightarrow> []
                   | c3 # s3 \<Rightarrow>
                       if \<not> is_cont c3 then utf8_ignore s2
                       else (case s3 of
                               [] \<Rightarrow> []
                             | c4 # s4 \<Rightarrow>
                                 if \<not> is_cont c4 then utf8_ignore s3
                                 else cp4 c c2 c3 c4 # utf8_ignore s4)))
      else utf8_ignore s)"

definition strip :: "nat set \<Rightarrow> py_str \<Rightarrow> py_str" where
  \<comment> \<open>\<open>s.strip(chars)\<close>: the characters of \<open>chars\<close> removed at both ends\<close>
  "strip chars s = rev (dropWhile (\<lambda>c. c \<in> chars) (rev (dropWhile (\<lambda>c. c \<in> chars) s)))"

subsection \<open>\<open>struct.unpack('>i', b)[0]\<close>\<close>

definition struct_unpack_i :: "byte list \<Rightarrow> int outcome" where
  \<comment> \<open>a big-endian two's complement integer, of exactly four bytes\<close>
  "struct_unpack_i b =
     (if length b \<noteq> 4 then Raise StructError
      else let u = ((int (unat (b ! 0)) * 256 + int (unat (b ! 1))) * 256
                      + int (unat (b ! 2))) * 256 + int (unat (b ! 3))
           in Return (if u < 2147483648 then u else u - 4294967296))"

subsection \<open>\<open>a / b\<close> on integers\<close>

text \<open>
  The quotient of two integers is the binary64 number nearest to the exact quotient, a
  tie going to the even significand. The definitions cover the quotients that round to a
  normal number, away from overflow and underflow; every 32-bit integer over 1000000 does.
\<close>

function bit_length :: "int \<Rightarrow> nat" where
  \<comment> \<open>the number of binary digits of a positive integer\<close>
  "bit_length n = (if n \<le> 0 then 0 else Suc (bit_length (n div 2)))"
  by pat_completeness auto
termination
  by (relation "measure nat") auto

declare bit_length.simps [simp del]

definition round_half_even :: "rat \<Rightarrow> int" where
  "round_half_even q =
     (let f = \<lfloor>q\<rfloor>; r = q - of_int f
      in if r < 1 / 2 then f else if 1 / 2 < r then f + 1 else if even f then f else f + 1)"

definition binade :: "int \<Rightarrow> int \<Rightarrow> int" where
  \<comment> \<open>the \<open>k\<close> with \<open>2 powi k \<le> a / b < 2 powi (k + 1)\<close>, for positive \<open>a\<close> and \<open>b\<close>\<close>
  "binade a b =
     (let k = int (bit_length a) - int (bit_length b)
      in if 2 powi k \<le> (of_int a / of_int b :: rat) then k else k - 1)"

definition nearest_double :: "int \<Rightarrow> int \<Rightarrow> py_float" where
  \<comment> \<open>for \<open>a \<ge> 0\<close> and \<open>b > 0\<close>: a significand of 53 bits, scaled\<close>
  "nearest_double a b =
     (if a = 0 then 0
      else let e = binade a b - 52
           in of_int (round_half_even (of_int a / of_int b / 2 powi e)) * 2 powi e)"

definition true_divide :: "int \<Rightarrow> int \<Rightarrow> py_float" where
  \<comment> \<open>\<open>a / b\<close> for a positive divisor\<close>
  "true_divide a b = (if a < 0 then - nearest_double (- a) b else nearest_double a b)"

section \<open>The decoded packet\<close>

datatype signal_state = NoSignal | Red | BlinkGreen | Green | NoneState | Unknown

record phase =
  remaining_time :: int
  signal_state :: signal_state

text \<open>
  \<open>pics_info\<close> is a dictionary: three keys are always set, the others depend on the
  message type. A key that was not set is \<open>None\<close> here.
\<close>

record pics_info =
  message_type :: byte
  message_id :: byte
  intersection_id :: string
  "identifier" :: "py_str option"
  latitude :: "py_float option"
  longitude :: "py_float option"
  pedestrian_signals :: "phase list option"

definition state_table :: "(byte \<times> signal_state) list" where
  "state_table = [(0, NoSignal), (1, Red), (2, BlinkGreen), (3, Green), (4, NoneState)]"

definition dict_get :: "('k \<times> 'v) list \<Rightarrow> 'k \<Rightarrow> 'v \<Rightarrow> 'v" where
  \<comment> \<open>\<open>d.get(k, default)\<close>\<close>
  "dict_get d k dflt = (case map_of d k of None \<Rightarrow> dflt | Some v \<Rightarrow> v)"

definition decode_signal :: "byte \<Rightarrow> phase" where
  \<comment> \<open>lines 26 to 34: one byte of a type 2 message\<close>
  "decode_signal signal_byte =
     (let remaining = int (unat (drop_bit 4 signal_byte AND 0x0F));
          state = signal_byte AND 0x0F
      in \<lparr>remaining_time = (if remaining \<ge> 8 then - 1 else remaining + 1),
          signal_state = dict_get state_table state Unknown\<rparr>)"

primrec signal_loop :: "byte list \<Rightarrow> nat list \<Rightarrow> phase list \<Rightarrow> phase list" where
  \<comment> \<open>lines 24 to 34: \<open>for i in range(6)\<close>, appending to \<open>pedestrian_signals\<close>\<close>
  "signal_loop data [] acc = acc"
| "signal_loop data (i # rest) acc =
     signal_loop data rest
       (if 10 + i < length data then acc @ [decode_signal (data ! (10 + i))] else acc)"

definition process_pics :: "byte list \<Rightarrow> pics_info outcome" where
  "process_pics data =
     (case py_index data 2 of
        Raise e \<Rightarrow> Raise e
      | Return msg_type \<Rightarrow>
     (case py_index data 3 of
        Raise e \<Rightarrow> Raise e
      | Return msg_id \<Rightarrow>
     (let info = \<lparr>message_type = msg_type, message_id = msg_id,
                  intersection_id = concat (map hex2 (py_slice data 6 10)),
                  identifier = None, latitude = None, longitude = None,
                  pedestrian_signals = None\<rparr>
      in if msg_type = 0 then
           Return (info\<lparr>identifier := Some (strip {0} (utf8_ignore (py_slice data 10 24)))\<rparr>)
         else if msg_type = 1 then
           (case struct_unpack_i (py_slice data 10 14) of
              Raise e \<Rightarrow> Raise e
            | Return lat \<Rightarrow>
           (case struct_unpack_i (py_slice data 14 18) of
              Raise e \<Rightarrow> Raise e
            | Return lon \<Rightarrow>
                Return (info\<lparr>latitude := Some (true_divide lat 1000000),
                             longitude := Some (true_divide lon 1000000)\<rparr>)))
         else if msg_type = 2 then
           Return (info\<lparr>pedestrian_signals := Some (signal_loop data [0..<6] [])\<rparr>)
         else Return info)))"

section \<open>The globals and the receive callback\<close>

record entry =
  time :: timestamp
  s1 :: phase
  s2 :: phase

text \<open>
  What the callback prints after clearing the terminal, without the fixed headings: the
  held signal line or the waiting message, the dump of the packet with its decoded form,
  and one line per recent history entry.
\<close>

datatype printed = SignalLine phase phase | Waiting | Packet "byte list" pics_info | HistoryLine entry

text \<open>
  The module's globals, the number of times the clock has been read, and the terminal.
  \<open>log_history\<close> is a \<open>deque(maxlen=5)\<close>, its left end first.
\<close>

record world =
  latest_info :: "pics_info option"
  latest_raw :: "byte list option"
  latest_timestamp :: "timestamp option"
  last_signal_info :: "pics_info option"
  log_history :: "entry list"
  clock_reads :: nat
  screen :: "printed list"

definition initial_world :: world where
  "initial_world =
     \<lparr>latest_info = None, latest_raw = None, latest_timestamp = None, last_signal_info = None,
      log_history = [], clock_reads = 0, screen = []\<rparr>"

definition datetime_now :: "(nat \<Rightarrow> timestamp) \<Rightarrow> world \<Rightarrow> timestamp \<times> world" where
  \<comment> \<open>the \<open>n\<close>-th reading of the clock is \<open>clk n\<close>\<close>
  "datetime_now clk w = (clk (clock_reads w), w\<lparr>clock_reads := Suc (clock_reads w)\<rparr>)"

definition timedelta_seconds :: "int \<Rightarrow> int" where
  "timedelta_seconds n = n * 1000000"

definition deque_append :: "nat \<Rightarrow> 'a list \<Rightarrow> 'a \<Rightarrow> 'a list" where
  \<comment> \<open>\<open>d.append(x)\<close> on a deque of bound \<open>maxlen\<close>: one item leaves at the left
      when the deque has grown beyond the bound\<close>
  "deque_append maxlen d x = (let d' = d @ [x] in if length d' > maxlen then tl d' else d')"

definition dict_item :: "'a option \<Rightarrow> 'a outcome" where
  \<comment> \<open>\<open>d[key]\<close>\<close>
  "dict_item v = (case v of None \<Rightarrow> Raise KeyError | Some x \<Rightarrow> Return x)"

definition dict_truthy :: "pics_info \<Rightarrow> bool" where
  \<comment> \<open>a dictionary is true when it has a key; \<open>pics_info\<close> always has three\<close>
  "dict_truthy info = True"

definition update_globals ::
  "(nat \<Rightarrow> timestamp) \<Rightarrow> world \<Rightarrow> byte list \<Rightarrow> pics_info \<Rightarrow> unit outcome \<times> world" where
  \<comment> \<open>lines 76 to 85; an assignment made before a raise stays\<close>
  "update_globals clk w data info =
     (let (t, w0) = datetime_now clk w;
          w1 = w0\<lparr>latest_info := Some info, latest_raw := Some data, latest_timestamp := Some t\<rparr>
      in if message_type info = 2 then
           (let w2 = w1\<lparr>last_signal_info := Some info\<rparr>
            in case dict_item (pedestrian_signals info) of
                 Raise e \<Rightarrow> (Raise e, w2)
               | Return sigs \<Rightarrow>
              (case py_index sigs 0 of
                 Raise e \<Rightarrow> (Raise e, w2)
               | Return a \<Rightarrow>
              (case py_index sigs 1 of
                 Raise e \<Rightarrow> (Raise e, w2)
               | Return b \<Rightarrow>
                   (Return (),
                    w2\<lparr>log_history :=
                         deque_append 5 (log_history w2) \<lparr>time = t, s1 = a, s2 = b\<rparr>\<rparr>))))
         else (Return (), w1))"

definition show_signal :: "world \<Rightarrow> printed outcome" where
  \<comment> \<open>lines 94 to 102: the held signal, or the waiting message\<close>
  "show_signal w =
     (case last_signal_info w of
        None \<Rightarrow> Return Waiting
      | Some info \<Rightarrow>
     (case dict_item (pedestrian_signals info) of
        Raise e \<Rightarrow> Raise e
      | Return sigs \<Rightarrow>
     (case py_index sigs 0 of
        Raise e \<Rightarrow> Raise e
      | Return a \<Rightarrow>
     (case py_index sigs 1 of
        Raise e \<Rightarrow> Raise e
      | Return b \<Rightarrow> Return (SignalLine a b)))))"

primrec recent_entries :: "int \<Rightarrow> timestamp \<Rightarrow> entry list \<Rightarrow> entry list" where
  \<comment> \<open>lines 118 and 119, the window being \<open>timedelta(seconds=30)\<close> there\<close>
  "recent_entries window now [] = []"
| "recent_entries window now (e # es) =
     (if now - time e \<le> window then e # recent_entries window now es
      else recent_entries window now es)"

datatype flow = Next | Stop

definition handle_packet ::
  "(nat \<Rightarrow> timestamp) \<Rightarrow> world \<Rightarrow> byte list \<Rightarrow> flow outcome \<times> world" where
  \<comment> \<open>lines 71 to 127: the loop body for an entry of the right manufacturer\<close>
  "handle_packet clk w data =
     (case process_pics data of
        Raise e \<Rightarrow> (Raise e, w)
      | Return info \<Rightarrow>
          if \<not> dict_truthy info then (Return Stop, w)
          else
            (case update_globals clk w data info of
               (Raise e, w1) \<Rightarrow> (Raise e, w1)
             | (Return u, w1) \<Rightarrow>
                 (let w2 = w1\<lparr>screen := []\<rparr>
                  in case show_signal w2 of
                       Raise e \<Rightarrow> (Raise e, w2)
                     | Return line \<Rightarrow>
                         (let w3 = w2\<lparr>screen := screen w2 @ [line, Packet data info]\<rparr>;
                              (now, w4) = datetime_now clk w3;
                              recent = recent_entries (timedelta_seconds 30) now (log_history w4)
                          in (Return Next,
                              w4\<lparr>screen := screen w4 @ map HistoryLine recent\<rparr>)))))"

fun detection_callback ::
  "(nat \<Rightarrow> timestamp) \<Rightarrow> world \<Rightarrow> (nat \<times> byte list) list \<Rightarrow> unit outcome \<times> world" where
  \<comment> \<open>the entries of \<open>manufacturer_data\<close> in their order\<close>
  "detection_callback clk w [] = (Return (), w)"
| "detection_callback clk w ((manufacturer_id, data_bytes) # rest) =
     (if manufacturer_id \<noteq> 0x01CE then detection_callback clk w rest
      else (case handle_packet clk w data_bytes of
              (Raise e, w') \<Rightarrow> (Raise e, w')
            | (Return Stop, w') \<Rightarrow> (Return (), w')
            | (Return Next, w') \<Rightarrow> detection_callback clk w' rest))"

text \<open>
  The scanner calls the callback once for each advertisement. The globals keep what a
  callback assigned before it raised.
\<close>

definition deliver ::
  "(nat \<Rightarrow> timestamp) \<Rightarrow> world \<Rightarrow> (nat \<times> byte list) list list \<Rightarrow> world" where
  "deliver clk w ads = foldl (\<lambda>w' items. snd (detection_callback clk w' items)) w ads"

section \<open>The specification's vocabulary\<close>

definition high_nibble :: "byte \<Rightarrow> nat" where
  "high_nibble b = unat b div 16"

definition low_nibble :: "byte \<Rightarrow> nat" where
  "low_nibble b = unat b mod 16"

definition spec_phase :: "byte \<Rightarrow> phase" where
  \<comment> \<open>a phase as the specification decodes it from the two nibbles\<close>
  "spec_phase b =
     \<lparr>remaining_time = (if high_nibble b \<ge> 8 then - 1 else int (high_nibble b) + 1),
      signal_state =
        (if low_nibble b = 0 then NoSignal
         else if low_nibble b = 1 then Red
         else if low_nibble b = 2 then BlinkGreen
         else if low_nibble b = 3 then Green
         else if low_nibble b = 4 then NoneState
         else Unknown)\<rparr>"

definition rstrip :: "nat set \<Rightarrow> py_str \<Rightarrow> py_str" where
  \<comment> \<open>the characters of \<open>chars\<close> removed at the right end only\<close>
  "rstrip chars s = rev (dropWhile (\<lambda>c. c \<in> chars) (rev s))"

definition be_i32 :: "byte \<Rightarrow> byte \<Rightarrow> byte \<Rightarrow> byte \<Rightarrow> int" where
  \<comment> \<open>the signed 32-bit integer whose bytes are these, the most significant first\<close>
  "be_i32 a b c d = sint (word_rcat [a, b, c, d] :: 32 word)"

definition signal_entry :: "timestamp \<Rightarrow> byte list \<Rightarrow> entry" where
  \<comment> \<open>the history entry of a type 2 payload with two phases or more, received at \<open>t\<close>\<close>
  "signal_entry t data = \<lparr>time = t, s1 = spec_phase (data ! 10), s2 = spec_phase (data ! 11)\<rparr>"

primrec signal_entries :: "(nat \<Rightarrow> timestamp) \<Rightarrow> nat \<Rightarrow> byte list list \<Rightarrow> entry list" where
  \<comment> \<open>the entries of consecutive such payloads; each callback reads the clock twice\<close>
  "signal_entries clk n [] = []"
| "signal_entries clk n (d # ds) = signal_entry (clk n) d # signal_entries clk (n + 2) ds"

section \<open>Bytes, nibbles and slices\<close>

lemma unat_low: "unat (b AND 0x0F :: byte) = unat b mod 16"
proof -
  have "b AND 0x0F = take_bit 4 b"
    using take_bit_eq_mask[of 4 b] by (simp add: mask_eq_exp_minus_1)
  then show ?thesis by (simp add: take_bit_eq_mod unat_mod)
qed

lemma unat_high: "unat (drop_bit 4 b AND 0x0F :: byte) = unat b div 16"
proof -
  have "unat (drop_bit 4 b AND 0x0F) = unat (drop_bit 4 b) mod 16" by (rule unat_low)
  also have "unat (drop_bit 4 b) = unat b div 16"
    by (simp add: drop_bit_eq_div unat_div)
  also have "unat b div 16 mod 16 = unat b div 16"
    using unsigned_less[of b, where 'a=nat] by simp
  finally show ?thesis .
qed

lemma low_eq: "(b AND 0x0F :: byte) = of_nat (unat b mod 16)"
proof -
  have "b AND 0x0F = of_nat (unat (b AND 0x0F))" by simp
  then show ?thesis by (simp only: unat_low)
qed

lemma nat_lt16: "(n::nat) < 16 \<Longrightarrow> n \<in> {0,1,2,3,4,5,6,7,8,9,10,11,12,13,14,15}"
  by simp arith

lemma state_lookup:
  "n < 16 \<Longrightarrow> dict_get state_table (of_nat n :: byte) Unknown =
     (if n = 0 then NoSignal else if n = 1 then Red else if n = 2 then BlinkGreen
      else if n = 3 then Green else if n = 4 then NoneState else Unknown)"
  by (drule nat_lt16) (auto simp: dict_get_def state_table_def)

lemma decode_signal_spec: "decode_signal b = spec_phase b"
proof -
  have lt: "unat b mod 16 < 16" by simp
  have st: "dict_get state_table (b AND 0x0F) Unknown = signal_state (spec_phase b)"
    unfolding low_eq using state_lookup [OF lt] by (simp add: spec_phase_def low_nibble_def)
  show ?thesis
    by (simp add: decode_signal_def Let_def unat_high st) (simp add: spec_phase_def high_nibble_def)
qed

lemma signal_loop_eq:
  "signal_loop data is acc =
     acc @ map (\<lambda>i. decode_signal (data ! (10 + i))) (filter (\<lambda>i. 10 + i < length data) is)"
  by (induction "is" arbitrary: acc) auto

lemma filter_upt_lt: "filter (\<lambda>i. 10 + i < n) [0..<m] = [0..<min m (n - 10)]"
proof (induction m)
  case 0
  show ?case by simp
next
  case (Suc m)
  show ?case
  proof (cases "10 + m < n")
    case True
    then have "min (Suc m) (n - 10) = Suc m" and "min m (n - 10) = m" by simp_all
    with True Suc show ?thesis by simp
  next
    case False
    then have "min (Suc m) (n - 10) = min m (n - 10)" by simp
    with False Suc show ?thesis by simp
  qed
qed

lemma rcat4: "(word_rcat [a, b, c, d :: byte] :: 32 word) =
   word_of_int (((uint a * 256 + uint b) * 256 + uint c) * 256 + uint d)"
  by (simp add: word_rcat_def horner_sum_eq_sum_funpow)

lemma byte_lt: "uint (b :: byte) < 256"
  using unsigned_less [of b, where 'a = int] by simp

lemma u32_bound:
  "((uint (a::byte) * 256 + uint (b::byte)) * 256 + uint (c::byte)) * 256 + uint (d::byte) < 4294967296"
  using byte_lt [of a] byte_lt [of b] byte_lt [of c] byte_lt [of d] by simp

lemma u32_nonneg:
  "0 \<le> ((uint (a::byte) * 256 + uint (b::byte)) * 256 + uint (c::byte)) * 256 + uint (d::byte)"
  by simp

lemma sint_of_int32:
  assumes "0 \<le> k" and "k < 4294967296"
  shows "sint (word_of_int k :: 32 word) = (if k < 2147483648 then k else k - 4294967296)"
proof -
  have eq: "sint (word_of_int k :: 32 word) = (k + 2147483648) mod 4294967296 - 2147483648"
    by (simp add: sint_sbintrunc' signed_take_bit_eq_take_bit_shift take_bit_eq_mod)
  show ?thesis
  proof (cases "k < 2147483648")
    case True
    with assms have "(k + 2147483648) mod 4294967296 = k + 2147483648"
      by (intro mod_pos_pos_trivial) simp_all
    with True eq show ?thesis by simp
  next
    case False
    have "k + 2147483648 = k - 2147483648 + 4294967296"
      by arith
    then have "(k + 2147483648) mod 4294967296 = (k - 2147483648 + 4294967296) mod 4294967296"
      by (simp only:)
    also have "\<dots> = (k - 2147483648) mod 4294967296"
      by (rule mod_add_self2)
    also have "\<dots> = k - 2147483648"
      using False assms by (intro mod_pos_pos_trivial) simp_all
    finally show ?thesis using False eq by simp
  qed
qed

lemma struct_unpack_i_4: "struct_unpack_i [a, b, c, d] = Return (be_i32 a b c d)"
proof -
  let ?k = "((uint a * 256 + uint b) * 256 + uint c) * 256 + uint d"
  have "be_i32 a b c d = sint (word_of_int ?k :: 32 word)"
    by (simp only: be_i32_def rcat4)
  also have "\<dots> = (if ?k < 2147483648 then ?k else ?k - 4294967296)"
    by (rule sint_of_int32 [OF u32_nonneg u32_bound])
  finally show ?thesis
    by (simp add: struct_unpack_i_def Let_def)
qed

lemma be_i32_range: "- 2147483648 \<le> be_i32 a b c d \<and> be_i32 a b c d \<le> 2147483647"
  using sint_ge [of "word_rcat [a, b, c, d] :: 32 word"] sint_lt [of "word_rcat [a, b, c, d] :: 32 word"]
  by (simp add: be_i32_def)


lemma take4: "4 \<le> length ys \<Longrightarrow> take 4 ys = [ys ! 0, ys ! 1, ys ! 2, ys ! 3]"
  by (simp add: list_eq_iff_nth_eq nth_Cons' numeral_eq_Suc less_Suc_eq)

lemma slice4:
  "i + 4 \<le> length xs \<Longrightarrow> py_slice xs i (i + 4) = [xs ! i, xs ! (i + 1), xs ! (i + 2), xs ! (i + 3)]"
  by (simp add: py_slice_def take4)




lemma type1_long:
  assumes "18 \<le> length data" and "data ! 2 = 1"
  shows "process_pics data =
           Return \<lparr>message_type = 1, message_id = data ! 3,
                   intersection_id = concat (map hex2 (py_slice data 6 10)),
                   identifier = None,
                   latitude =
                     Some (true_divide (be_i32 (data ! 10) (data ! 11) (data ! 12) (data ! 13)) 1000000),
                   longitude =
                     Some (true_divide (be_i32 (data ! 14) (data ! 15) (data ! 16) (data ! 17)) 1000000),
                   pedestrian_signals = None\<rparr>"
proof -
  have a: "py_slice data 10 14 = [data ! 10, data ! 11, data ! 12, data ! 13]"
    using assms slice4 [of 10 data] by simp
  have b: "py_slice data 14 18 = [data ! 14, data ! 15, data ! 16, data ! 17]"
    using assms slice4 [of 14 data] by simp
  from assms show ?thesis
    by (simp add: process_pics_def py_index_def a b struct_unpack_i_4)
qed

lemma utf8_ignore_ascii: "\<forall>b \<in> set bs. b < 0x80 \<Longrightarrow> utf8_ignore bs = map unat bs"
  by (induction bs) simp_all

lemma rev_dropWhile_split: "t = rev (dropWhile P (rev t)) @ rev (takeWhile P (rev t))"
  by (metis rev_append rev_rev_ident takeWhile_dropWhile_id)

lemma takeWhile_replicate: "takeWhile (\<lambda>c. c \<in> {z}) s = replicate (length (takeWhile (\<lambda>c. c \<in> {z}) s)) z"
proof -
  have "\<forall>y \<in> set (takeWhile (\<lambda>c. c \<in> {z}) s). y = z"
    by (auto dest: set_takeWhileD)
  then show ?thesis by (simp add: replicate_length_same)
qed

lemma strip_decomp: "\<exists>m n. s = replicate m z @ strip {z} s @ replicate n z"
proof -
  let ?P = "\<lambda>c. c \<in> {z}"
  let ?t = "dropWhile ?P s"
  let ?r = "takeWhile ?P (rev ?t)"
  have "s = takeWhile ?P s @ ?t"
    by (simp only: takeWhile_dropWhile_id)
  also have "?t = strip {z} s @ rev ?r"
    unfolding strip_def by (rule rev_dropWhile_split)
  also have "rev ?r = replicate (length ?r) z"
    using takeWhile_replicate [of z "rev ?t"] by (metis rev_replicate)
  finally have "s = takeWhile ?P s @ strip {z} s @ replicate (length ?r) z" .
  then have "s = replicate (length (takeWhile ?P s)) z @ strip {z} s @ replicate (length ?r) z"
    using takeWhile_replicate [of z s] by (simp only:)
  then show ?thesis by blast
qed

lemma strip_ends:
  assumes "strip {z} s \<noteq> []"
  shows "hd (strip {z} s) \<noteq> z \<and> last (strip {z} s) \<noteq> z"
proof -
  let ?P = "\<lambda>c. c \<in> {z}"
  let ?t = "dropWhile ?P s"
  let ?u = "dropWhile ?P (rev ?t)"
  from assms have u: "?u \<noteq> []" by (simp add: strip_def)
  have t: "?t \<noteq> []"
  proof
    assume "?t = []"
    then have "?u = []" by (simp only: rev.simps dropWhile.simps)
    with u show False ..
  qed
  have "last (strip {z} s) = hd ?u"
    using u by (simp add: strip_def last_rev)
  moreover have "\<not> ?P (hd ?u)" using u by (rule hd_dropWhile)
  moreover have "hd (strip {z} s) = last ?u"
    using u by (simp add: strip_def hd_rev)
  moreover have "last ?u = last (rev ?t)"
    using u by (metis last_appendR takeWhile_dropWhile_id)
  moreover have "last (rev ?t) = hd ?t" using t by (simp add: last_rev)
  moreover have "\<not> ?P (hd ?t)" using t by (rule hd_dropWhile)
  ultimately show ?thesis by simp
qed





section \<open>Division in binary64\<close>

lemma bit_length_bounds:
  "0 < n \<Longrightarrow> n < 2 ^ bit_length n \<and> 2 ^ bit_length n \<le> 2 * n"
proof (induction n rule: bit_length.induct)
  case (1 n)
  show ?case
  proof (cases "n = 1")
    case True
    then show ?thesis by (simp add: bit_length.simps)
  next
    case False
    with "1.prems" have h: "0 < n div 2" by simp
    from "1.prems" have "\<not> n \<le> 0" by simp
    from "1.IH" [OF this h] have ih: "n div 2 < 2 ^ bit_length (n div 2)"
      "2 ^ bit_length (n div 2) \<le> 2 * (n div 2)" by simp_all
    from "1.prems" have b: "bit_length n = Suc (bit_length (n div 2))"
      by (subst bit_length.simps) simp
    from ih show ?thesis unfolding b by (simp) linarith
  qed
qed

lemma pow2_pos: "0 < (2 :: rat) powi k"
  by simp

lemma pow2_step: "(2 :: rat) powi (k + 1) = 2 * 2 powi k"
  by (simp add: power_int_add)

lemma pow2_less_imp: "(2 :: rat) powi m < 2 powi n \<Longrightarrow> m < n"
proof (rule ccontr)
  assume a: "(2 :: rat) powi m < 2 powi n" and "\<not> m < n"
  then have "n \<le> m" by simp
  then have "(2 :: rat) powi n \<le> 2 powi m" by (intro power_int_increasing) simp_all
  with a show False by simp
qed

lemma binade_bounds:
  assumes "0 < a" and "0 < b"
  shows "2 powi (binade a b) \<le> (of_int a / of_int b :: rat)
         \<and> (of_int a / of_int b :: rat) < 2 powi (binade a b + 1)"
proof -
  let ?q = "of_int a / of_int b :: rat"
  let ?k = "int (bit_length a) - int (bit_length b)"
  from bit_length_bounds [OF assms(1)] have a1: "rat_of_int a < 2 ^ bit_length a"
    and a2: "(2 :: rat) ^ bit_length a \<le> 2 * of_int a"
    by (metis of_int_less_iff of_int_numeral of_int_power, metis of_int_le_iff of_int_mult of_int_numeral of_int_power)
  from bit_length_bounds [OF assms(2)] have b1: "rat_of_int b < 2 ^ bit_length b"
    and b2: "(2 :: rat) ^ bit_length b \<le> 2 * of_int b"
    by (metis of_int_less_iff of_int_numeral of_int_power, metis of_int_le_iff of_int_mult of_int_numeral of_int_power)
  have bpos: "0 < rat_of_int b" using assms by simp
  have k: "(2 :: rat) powi ?k = 2 ^ bit_length a / 2 ^ bit_length b"
    by (simp add: power_int_diff)
  have up: "?q < 2 powi (?k + 1)"
  proof -
    have "?q * 2 ^ bit_length b \<le> ?q * (2 * of_int b)"
      using b2 assms by (intro mult_left_mono) simp_all
    also have "\<dots> = 2 * of_int a" using bpos by simp
    also have "\<dots> < 2 * 2 ^ bit_length a" using a1 by simp
    finally have "?q < 2 * 2 ^ bit_length a / 2 ^ bit_length b"
      by (simp add: pos_less_divide_eq)
    then show ?thesis by (simp add: pow2_step k)
  qed
  have low: "2 powi (?k - 1) \<le> ?q"
  proof -
    have "(2 :: rat) ^ bit_length a * of_int b \<le> 2 * of_int a * of_int b"
      using a2 bpos by (intro mult_right_mono) simp_all
    also have "\<dots> \<le> of_int a * (2 * 2 ^ bit_length b)"
      using b1 assms by simp
    finally have "(2 :: rat) ^ bit_length a / (2 * 2 ^ bit_length b) \<le> ?q"
      using bpos by (simp add: field_simps)
    moreover have "(2 :: rat) powi (?k - 1) = 2 ^ bit_length a / (2 * 2 ^ bit_length b)"
      using pow2_step [of "?k - 1"] k by simp
    ultimately show ?thesis by simp
  qed
  show ?thesis
  proof (cases "2 powi ?k \<le> ?q")
    case True
    then have "binade a b = ?k" by (simp add: binade_def)
    with True up show ?thesis by simp
  next
    case False
    then have "binade a b = ?k - 1" by (simp add: binade_def)
    with False low show ?thesis by simp
  qed
qed

lemma round_half_even_cases:
  "round_half_even q = \<lfloor>q\<rfloor> \<or> round_half_even q = \<lfloor>q\<rfloor> + 1"
  by (simp add: round_half_even_def Let_def)


lemma round_half_even_of_int [simp]: "round_half_even (of_int m) = m"
  by (simp add: round_half_even_def)

lemma round_half_even_mono:
  assumes "q \<le> q'"
  shows "round_half_even q \<le> round_half_even q'"
proof -
  from assms have f: "\<lfloor>q\<rfloor> \<le> \<lfloor>q'\<rfloor>" by (rule floor_mono)
  show ?thesis
  proof (cases "\<lfloor>q\<rfloor> = \<lfloor>q'\<rfloor>")
    case True
    with assms have "q - of_int \<lfloor>q\<rfloor> \<le> q' - of_int \<lfloor>q'\<rfloor>" by simp
    with True show ?thesis
      by (auto simp add: round_half_even_def Let_def)
  next
    case False
    with f have "\<lfloor>q\<rfloor> + 1 \<le> \<lfloor>q'\<rfloor>" by simp
    moreover have "round_half_even q \<le> \<lfloor>q\<rfloor> + 1"
      using round_half_even_cases [of q] by auto
    moreover have "\<lfloor>q'\<rfloor> \<le> round_half_even q'"
      using round_half_even_cases [of q'] by auto
    ultimately show ?thesis by simp
  qed
qed

lemma binade_mono:
  assumes "0 < a" "0 < b" "0 < a'" "0 < b'"
    and "(of_int a / of_int b :: rat) \<le> of_int a' / of_int b'"
  shows "binade a b \<le> binade a' b'"
proof -
  from binade_bounds [OF assms(1,2)] have "2 powi (binade a b) \<le> (of_int a / of_int b :: rat)"
    by simp
  also note assms(5)
  also from binade_bounds [OF assms(3,4)] have "(of_int a' / of_int b' :: rat) < 2 powi (binade a' b' + 1)"
    by simp
  finally have "binade a b < binade a' b' + 1"
    by (rule pow2_less_imp)
  then show ?thesis by simp
qed

lemma ratio_bounds:
  fixes q P :: rat
  assumes "0 < P" and "P \<le> q" and "q < 2 * P"
  shows "2 ^ 52 \<le> q / (P / 2 ^ 52) \<and> q / (P / 2 ^ 52) < 2 ^ 53"
proof -
  have z: "q / (P / 2 ^ 52) = q * 2 ^ 52 / P"
    by simp
  from assms have "2 ^ 52 * P \<le> q * 2 ^ 52" and "q * 2 ^ 52 < 2 ^ 53 * P"
    by simp_all
  with assms(1) show ?thesis
    unfolding z by (simp only: pos_le_divide_eq pos_divide_less_eq)
qed

lemma scaled_bounds:
  assumes "0 < a" and "0 < b"
  shows "(2 :: rat) ^ 52 \<le> of_int a / of_int b / 2 powi (binade a b - 52)
         \<and> of_int a / of_int b / 2 powi (binade a b - 52) < (2 :: rat) ^ 53"
proof -
  have e: "(2 :: rat) powi (binade a b - 52) = 2 powi (binade a b) / 2 ^ 52"
    by (simp add: power_int_diff)
  from binade_bounds [OF assms] have "2 powi (binade a b) \<le> (of_int a / of_int b :: rat)"
    and "(of_int a / of_int b :: rat) < 2 * 2 powi (binade a b)"
    by (simp_all add: pow2_step)
  with pow2_pos [of "binade a b"] show ?thesis
    unfolding e by (rule ratio_bounds)
qed

lemma mantissa_bounds:
  assumes "0 < a" and "0 < b"
  shows "2 ^ 52 \<le> round_half_even (of_int a / of_int b / 2 powi (binade a b - 52))
         \<and> round_half_even (of_int a / of_int b / 2 powi (binade a b - 52)) \<le> 2 ^ 53"
proof -
  let ?z = "of_int a / of_int b / 2 powi (binade a b - 52) :: rat"
  from scaled_bounds [OF assms] have "of_int (2 ^ 52) \<le> ?z" and "?z \<le> of_int (2 ^ 53)"
    by simp_all
  then have "round_half_even (of_int (2 ^ 52)) \<le> round_half_even ?z"
    and "round_half_even ?z \<le> round_half_even (of_int (2 ^ 53))"
    by (simp_all only: round_half_even_mono)
  then show ?thesis by (simp only: round_half_even_of_int)
qed

lemma nearest_double_eq:
  "0 < a \<Longrightarrow> nearest_double a b =
     of_int (round_half_even (of_int a / of_int b / 2 powi (binade a b - 52))) * 2 powi (binade a b - 52)"
  by (simp add: nearest_double_def Let_def)

lemma nearest_double_mono:
  assumes "0 < a" "0 < b" "0 < a'" "0 < b'"
    and le: "(of_int a / of_int b :: rat) \<le> of_int a' / of_int b'"
  shows "nearest_double a b \<le> nearest_double a' b'"
proof -
  let ?k = "binade a b" and ?k' = "binade a' b'"
  let ?m = "round_half_even (of_int a / of_int b / 2 powi (?k - 52))"
  let ?m' = "round_half_even (of_int a' / of_int b' / 2 powi (?k' - 52))"
  have kk: "?k \<le> ?k'" using assms by (rule binade_mono)
  show ?thesis
  proof (cases "?k = ?k'")
    case True
    from le have "of_int a / of_int b / 2 powi (?k' - 52) \<le> (of_int a' / of_int b' / 2 powi (?k' - 52) :: rat)"
      by (intro divide_right_mono) simp_all
    then have "round_half_even (of_int a / of_int b / 2 powi (?k' - 52)) \<le> ?m'"
      by (rule round_half_even_mono)
    then have "rat_of_int (round_half_even (of_int a / of_int b / 2 powi (?k' - 52))) * 2 powi (?k' - 52)
        \<le> of_int ?m' * 2 powi (?k' - 52)"
      by (intro mult_right_mono) simp_all
    with True assms show ?thesis by (simp add: nearest_double_eq)
  next
    case False
    with kk have lt: "?k + 1 \<le> ?k'" by simp
    from mantissa_bounds [OF assms(1,2)] have "rat_of_int ?m \<le> 2 ^ 53"
      by (metis of_int_le_iff of_int_numeral of_int_power)
    then have "of_int ?m * 2 powi (?k - 52) \<le> (2 :: rat) ^ 53 * 2 powi (?k - 52)"
      by (intro mult_right_mono) simp_all
    also have "\<dots> = 2 powi (?k + 1)"
      by (simp add: power_int_diff pow2_step)
    also have "\<dots> \<le> 2 powi ?k'"
      using lt by (intro power_int_increasing) simp_all
    also have "\<dots> = (2 :: rat) ^ 52 * 2 powi (?k' - 52)"
      by (simp add: power_int_diff)
    also have "\<dots> \<le> of_int ?m' * 2 powi (?k' - 52)"
    proof (intro mult_right_mono)
      from mantissa_bounds [OF assms(3,4)] show "(2 :: rat) ^ 52 \<le> of_int ?m'"
        by (metis of_int_le_iff of_int_numeral of_int_power)
    qed simp
    finally show ?thesis using assms by (simp add: nearest_double_eq)
  qed
qed

lemma nearest_double_nonneg: "0 < a \<Longrightarrow> 0 < b \<Longrightarrow> 0 \<le> nearest_double a b"
proof -
  assume a: "0 < a" "0 < b"
  from mantissa_bounds [OF a] have "0 \<le> round_half_even (of_int a / of_int b / 2 powi (binade a b - 52))"
    by simp
  with a show ?thesis by (simp add: nearest_double_eq)
qed


lemma true_divide_mono:
  assumes "0 < b" and "a \<le> a'"
  shows "true_divide a b \<le> true_divide a' b"
proof -
  have frac: "\<And>x y. 0 < x \<Longrightarrow> x \<le> y \<Longrightarrow> nearest_double x b \<le> nearest_double y b"
  proof -
    fix x y :: int
    assume "0 < x" and "x \<le> y"
    with assms(1) show "nearest_double x b \<le> nearest_double y b"
      by (intro nearest_double_mono) (simp_all add: divide_right_mono)
  qed
  have zero: "nearest_double 0 b = 0" by (simp add: nearest_double_def)
  consider "a' < 0" | "a < 0" "0 \<le> a'" | "0 \<le> a" using assms(2) by linarith
  then show ?thesis
  proof cases
    case 1
    with assms have "nearest_double (- a') b \<le> nearest_double (- a) b"
      by (intro frac) simp_all
    with 1 assms show ?thesis by (simp add: true_divide_def)
  next
    case 2
    then have "0 \<le> nearest_double (- a) b" using assms by (intro nearest_double_nonneg) simp_all
    moreover have "0 \<le> nearest_double a' b"
      using 2 assms nearest_double_nonneg [of a' b] by (cases "a' = 0") (simp_all add: zero)
    ultimately show ?thesis using 2 by (simp add: true_divide_def)
  next
    case 3
    show ?thesis
    proof (cases "a = 0")
      case True
      with 3 assms nearest_double_nonneg [of a' b] show ?thesis
        by (cases "a' = 0") (simp_all add: true_divide_def zero)
    next
      case False
      with 3 assms have "nearest_double a b \<le> nearest_double a' b" by (intro frac) simp_all
      with 3 assms show ?thesis by (simp add: true_divide_def)
    qed
  qed
qed


section \<open>The decoder\<close>

text \<open>
  C2. A payload of ten bytes or more whose message type is 2 decodes to a record whose
  \<open>pedestrian_signals\<close> has exactly \<open>min 6 (length - 10)\<close> phases, phase \<open>i\<close> being
  decoded from byte \<open>10 + i\<close>: the remaining time is -1 when the high nibble is 8 or more
  and the high nibble plus one otherwise; the state is NoSignal, Red, BlinkGreen, Green,
  None for the low nibbles 0 to 4 and Unknown for 5 to 15. No phase is made up for a byte
  that is not there.
\<close>

theorem type2_phases:
  assumes "10 \<le> length data" and "data ! 2 = 2"
  shows "\<exists>info ps. process_pics data = Return info \<and> pedestrian_signals info = Some ps
           \<and> length ps = min 6 (length data - 10)
           \<and> (\<forall>i < length ps. ps ! i = spec_phase (data ! (10 + i)))"
  using assms
  by (simp add: process_pics_def py_index_def signal_loop_eq filter_upt_lt decode_signal_spec)

theorem type2_phases_witness:
  "10 \<le> length [0, 0, 2, 0, 0, 0, 0, 0, 0, 0, 0x13, 0x85 :: byte]
   \<and> [0, 0, 2, 0, 0, 0, 0, 0, 0, 0, 0x13, 0x85 :: byte] ! 2 = 2
   \<and> (\<exists>info ps. process_pics [0, 0, 2, 0, 0, 0, 0, 0, 0, 0, 0x13, 0x85] = Return info
         \<and> pedestrian_signals info = Some ps \<and> length ps = 2
         \<and> ps ! 0 = \<lparr>remaining_time = 2, signal_state = Green\<rparr>
         \<and> ps ! 1 = \<lparr>remaining_time = - 1, signal_state = Unknown\<rparr>)"
proof -
  let ?d = "[0, 0, 2, 0, 0, 0, 0, 0, 0, 0, 0x13, 0x85 :: byte]"
  have h1: "10 \<le> length ?d" by simp
  have h2: "?d ! 2 = 2" by simp
  from type2_phases [OF h1 h2] obtain info ps where
    r: "process_pics ?d = Return info" "pedestrian_signals info = Some ps"
    and l: "length ps = min 6 (length ?d - 10)"
    and p: "\<forall>i < length ps. ps ! i = spec_phase (?d ! (10 + i))"
    by blast
  from l have l2: "length ps = 2" by simp
  from p l2 have "ps ! 0 = spec_phase 0x13" and "ps ! 1 = spec_phase 0x85"
    by auto
  then have "ps ! 0 = \<lparr>remaining_time = 2, signal_state = Green\<rparr>"
    and "ps ! 1 = \<lparr>remaining_time = - 1, signal_state = Unknown\<rparr>"
    by (simp_all add: spec_phase_def high_nibble_def low_nibble_def)
  with r l2 h1 h2 show ?thesis by blast
qed







text \<open>
  C10, as stated: the latitude and the longitude of a type 1 payload of eighteen bytes or
  more lie between -2147.483648 and 2147.483647. For the bytes 7F FF FF FF the division
  returns the binary64 number nearest to 2147.483647, which lies above it.
\<close>

theorem coordinates_range_counterexample:
  "18 \<le> length [0, 0, 1, 0, 0, 0, 0, 0, 0, 0, 0x7F, 0xFF, 0xFF, 0xFF, 0x7F, 0xFF, 0xFF, 0xFF :: byte]
   \<and> [0, 0, 1, 0, 0, 0, 0, 0, 0, 0, 0x7F, 0xFF, 0xFF, 0xFF, 0x7F, 0xFF, 0xFF, 0xFF :: byte] ! 2 = 1
   \<and> process_pics [0, 0, 1, 0, 0, 0, 0, 0, 0, 0, 0x7F, 0xFF, 0xFF, 0xFF, 0x7F, 0xFF, 0xFF, 0xFF] =
       Return \<lparr>message_type = 1, message_id = 0, intersection_id = ''00000000'',
               identifier = None,
               latitude = Some (2361183240335311 / 1099511627776),
               longitude = Some (2361183240335311 / 1099511627776),
               pedestrian_signals = None\<rparr>
   \<and> (2147483647 / 1000000 :: rat) < 2361183240335311 / 1099511627776"
  by code_simp

text \<open>
  C10, amended. The latitude and the longitude of a type 1 payload of eighteen bytes or
  more lie between -2147.483648 and the binary64 number nearest to 2147.483647, which is
  2361183240335311 / 2 ^ 40 and exceeds 2147.483647 by less than 2e-14. Nothing checks
  them against 90 and 180 degrees: some payload decodes to a latitude above 90 and a
  longitude above 180.
\<close>

theorem coordinates_range:
  "(\<forall>data. 18 \<le> length data \<and> data ! 2 = 1 \<longrightarrow>
      (\<exists>info lat lon. process_pics data = Return info
         \<and> latitude info = Some lat \<and> longitude info = Some lon
         \<and> - 2147483648 / 1000000 \<le> lat \<and> lat \<le> 2361183240335311 / 2 ^ 40
         \<and> - 2147483648 / 1000000 \<le> lon \<and> lon \<le> 2361183240335311 / 2 ^ 40))
   \<and> true_divide 2147483647 1000000 = 2361183240335311 / 2 ^ 40
   \<and> (2361183240335311 / 2 ^ 40 :: rat) - 2147483647 / 1000000 < 2 / 10 ^ 14
   \<and> (\<exists>data info lat lon. 18 \<le> length data \<and> data ! 2 = 1
         \<and> process_pics data = Return info
         \<and> latitude info = Some lat \<and> longitude info = Some lon
         \<and> 90 < lat \<and> 180 < lon)"
proof (intro conjI allI impI)
  fix data :: "byte list"
  assume h: "18 \<le> length data \<and> data ! 2 = 1"
  let ?x = "be_i32 (data ! 10) (data ! 11) (data ! 12) (data ! 13)"
  let ?y = "be_i32 (data ! 14) (data ! 15) (data ! 16) (data ! 17)"
  let ?R = "\<lparr>message_type = 1, message_id = data ! 3,
             intersection_id = concat (map hex2 (py_slice data 6 10)), identifier = None,
             latitude = Some (true_divide ?x 1000000),
             longitude = Some (true_divide ?y 1000000), pedestrian_signals = None\<rparr>"
  have lo: "- 2147483648 / 1000000 \<le> true_divide (- 2147483648) 1000000"
    and hi: "true_divide 2147483647 1000000 = 2361183240335311 / 2 ^ 40"
    by code_simp+
  have range: "- 2147483648 \<le> ?x" "?x \<le> 2147483647" "- 2147483648 \<le> ?y" "?y \<le> 2147483647"
    using be_i32_range by blast+
  have b: "(0 :: int) < 1000000" by simp
  from range have "true_divide (- 2147483648) 1000000 \<le> true_divide ?x 1000000"
    and "true_divide ?x 1000000 \<le> true_divide 2147483647 1000000"
    and "true_divide (- 2147483648) 1000000 \<le> true_divide ?y 1000000"
    and "true_divide ?y 1000000 \<le> true_divide 2147483647 1000000"
    by (simp_all only: true_divide_mono [OF b])
  with lo hi have bounds: "- 2147483648 / 1000000 \<le> true_divide ?x 1000000"
    "true_divide ?x 1000000 \<le> 2361183240335311 / 2 ^ 40"
    "- 2147483648 / 1000000 \<le> true_divide ?y 1000000"
    "true_divide ?y 1000000 \<le> 2361183240335311 / 2 ^ 40"
    by linarith+
  have r: "process_pics data = Return ?R"
    using h by (simp add: type1_long)
  have "latitude ?R = Some (true_divide ?x 1000000)"
    and "longitude ?R = Some (true_divide ?y 1000000)"
    by simp_all
  with r bounds show "\<exists>info lat lon. process_pics data = Return info
         \<and> latitude info = Some lat \<and> longitude info = Some lon
         \<and> - 2147483648 / 1000000 \<le> lat \<and> lat \<le> 2361183240335311 / 2 ^ 40
         \<and> - 2147483648 / 1000000 \<le> lon \<and> lon \<le> 2361183240335311 / 2 ^ 40"
    by blast
next
  show "true_divide 2147483647 1000000 = 2361183240335311 / 2 ^ 40"
    by code_simp
next
  show "(2361183240335311 / 2 ^ 40 :: rat) - 2147483647 / 1000000 < 2 / 10 ^ 14"
    by simp
next
  let ?d = "[0, 0, 1, 0, 0, 0, 0, 0, 0, 0, 0x7F, 0xFF, 0xFF, 0xFF, 0x7F, 0xFF, 0xFF, 0xFF :: byte]"
  let ?c = "2361183240335311 / 1099511627776 :: rat"
  let ?R = "\<lparr>message_type = 1, message_id = 0, intersection_id = ''00000000'',
             identifier = None, latitude = Some ?c, longitude = Some ?c,
             pedestrian_signals = None\<rparr>"
  have "process_pics ?d = Return ?R"
    by code_simp
  moreover have "18 \<le> length ?d \<and> ?d ! 2 = 1"
    by simp
  moreover have "latitude ?R = Some ?c \<and> longitude ?R = Some ?c"
    by simp
  moreover have "90 < ?c \<and> 180 < ?c"
    by simp
  ultimately show "\<exists>data info lat lon. 18 \<le> length data \<and> data ! 2 = 1
         \<and> process_pics data = Return info
         \<and> latitude info = Some lat \<and> longitude info = Some lon
         \<and> 90 < lat \<and> 180 < lon"
    by blast
qed

theorem coordinates_range_witness:
  "18 \<le> length [0, 0, 1, 0, 0, 0, 0, 0, 0, 0, 0x80, 0, 0, 0, 0x7F, 0xFF, 0xFF, 0xFF :: byte]
   \<and> [0, 0, 1, 0, 0, 0, 0, 0, 0, 0, 0x80, 0, 0, 0, 0x7F, 0xFF, 0xFF, 0xFF :: byte] ! 2 = 1
   \<and> (\<exists>info lat lon.
         process_pics [0, 0, 1, 0, 0, 0, 0, 0, 0, 0, 0x80, 0, 0, 0, 0x7F, 0xFF, 0xFF, 0xFF]
           = Return info
         \<and> latitude info = Some lat \<and> longitude info = Some lon
         \<and> - 2147483648 / 1000000 \<le> lat \<and> lat \<le> 2361183240335311 / 2 ^ 40
         \<and> - 2147483648 / 1000000 \<le> lon \<and> lon \<le> 2361183240335311 / 2 ^ 40)"
  using coordinates_range
    [THEN conjunct1, THEN spec,
     of "[0, 0, 1, 0, 0, 0, 0, 0, 0, 0, 0x80, 0, 0, 0, 0x7F, 0xFF, 0xFF, 0xFF :: byte]"]
  by simp

text \<open>
  C8, as stated: the identifier of a type 0 payload is the decoded text of bytes 10 to 23
  with the NUL characters at its end removed. \<open>strip('\x00')\<close> removes them at both
  ends, so a NUL in front of the text goes too.
\<close>

theorem identifier_rstrip_counterexample:
  "10 \<le> length [0, 0, 0, 7, 0, 0, 1, 2, 3, 4, 0, 0x41, 0 :: byte]
   \<and> [0, 0, 0, 7, 0, 0, 1, 2, 3, 4, 0, 0x41, 0 :: byte] ! 2 = 0
   \<and> process_pics [0, 0, 0, 7, 0, 0, 1, 2, 3, 4, 0, 0x41, 0] =
       Return \<lparr>message_type = 0, message_id = 7, intersection_id = ''01020304'',
               identifier = Some [0x41], latitude = None, longitude = None,
               pedestrian_signals = None\<rparr>
   \<and> rstrip {0} (utf8_ignore (py_slice [0, 0, 0, 7, 0, 0, 1, 2, 3, 4, 0, 0x41, 0 :: byte] 10 24))
       = [0, 0x41]"
  by code_simp

text \<open>
  C8, amended. For every payload of ten bytes or more with message type 0, decoding
  returns a record, whatever the bytes are, and its identifier is the lossy decoding of
  bytes 10 to 23 (invalid bytes dropped) without the NUL characters at its two ends: the
  decoded text is the identifier between two runs of NUL, and a non-empty identifier
  neither starts nor ends with NUL.
\<close>

theorem identifier_text:
  assumes "10 \<le> length data" and "data ! 2 = 0"
  shows "\<exists>info ident. process_pics data = Return info \<and> identifier info = Some ident
           \<and> (\<exists>m n. utf8_ignore (py_slice data 10 24) = replicate m 0 @ ident @ replicate n 0)
           \<and> (ident \<noteq> [] \<longrightarrow> hd ident \<noteq> 0 \<and> last ident \<noteq> 0)"
proof -
  let ?s = "utf8_ignore (py_slice data 10 24)"
  let ?R = "\<lparr>message_type = 0, message_id = data ! 3,
             intersection_id = concat (map hex2 (py_slice data 6 10)),
             identifier = Some (strip {0} ?s), latitude = None, longitude = None,
             pedestrian_signals = None\<rparr>"
  have "process_pics data = Return ?R"
    using assms by (simp add: process_pics_def py_index_def Let_def)
  moreover have "identifier ?R = Some (strip {0} ?s)"
    by simp
  moreover have "\<exists>m n. ?s = replicate m 0 @ strip {0} ?s @ replicate n 0"
    by (rule strip_decomp)
  moreover have "strip {0} ?s \<noteq> [] \<longrightarrow> hd (strip {0} ?s) \<noteq> 0 \<and> last (strip {0} ?s) \<noteq> 0"
    using strip_ends [of 0 ?s] by blast
  ultimately show ?thesis by blast
qed

theorem identifier_text_witness:
  "10 \<le> length [0, 0, 0, 7, 0, 0, 1, 2, 3, 4, 0, 0x41, 0xFF, 0xC3, 0xA9, 0 :: byte]
   \<and> [0, 0, 0, 7, 0, 0, 1, 2, 3, 4, 0, 0x41, 0xFF, 0xC3, 0xA9, 0 :: byte] ! 2 = 0
   \<and> (\<exists>info ident.
         process_pics [0, 0, 0, 7, 0, 0, 1, 2, 3, 4, 0, 0x41, 0xFF, 0xC3, 0xA9, 0] = Return info
         \<and> identifier info = Some ident
         \<and> (\<exists>m n. [0, 0x41, 0xE9, 0] = replicate m 0 @ ident @ replicate n 0)
         \<and> (ident \<noteq> [] \<longrightarrow> hd ident \<noteq> 0 \<and> last ident \<noteq> 0))"
proof -
  let ?d = "[0, 0, 0, 7, 0, 0, 1, 2, 3, 4, 0, 0x41, 0xFF, 0xC3, 0xA9, 0 :: byte]"
  have h1: "10 \<le> length ?d" by simp
  have h2: "?d ! 2 = 0" by simp
  have e: "utf8_ignore (py_slice ?d 10 24) = [0, 0x41, 0xE9, 0]" by code_simp
  from identifier_text [OF h1 h2] h1 h2 show ?thesis
    unfolding e by simp
qed

section \<open>The globals under the callback\<close>

lemma update_globals_other:
  "message_type info \<noteq> 2 \<Longrightarrow>
     update_globals clk w data info =
       (Return (), w\<lparr>clock_reads := Suc (clock_reads w), latest_info := Some info,
                      latest_raw := Some data, latest_timestamp := Some (clk (clock_reads w))\<rparr>)"
  by (simp add: update_globals_def datetime_now_def)

lemma update_globals_frame:
  "message_type info \<noteq> 2 \<Longrightarrow>
     last_signal_info (snd (update_globals clk w data info)) = last_signal_info w
     \<and> log_history (snd (update_globals clk w data info)) = log_history w"
  by (simp add: update_globals_other)

lemma update_globals_signal:
  assumes "message_type info = 2" and "pedestrian_signals info = Some (a # b # ps)"
  shows "update_globals clk w data info =
       (Return (), w\<lparr>clock_reads := Suc (clock_reads w), latest_info := Some info,
                      latest_raw := Some data, latest_timestamp := Some (clk (clock_reads w)),
                      last_signal_info := Some info,
                      log_history := deque_append 5 (log_history w)
                         \<lparr>time = clk (clock_reads w), s1 = a, s2 = b\<rparr>\<rparr>)"
  using assms by (simp add: update_globals_def datetime_now_def dict_item_def py_index_def)

lemma update_globals_few:
  assumes "message_type info = 2" and "pedestrian_signals info = Some ps" and "length ps < 2"
  shows "update_globals clk w data info =
       (Raise IndexError, w\<lparr>clock_reads := Suc (clock_reads w), latest_info := Some info,
                      latest_raw := Some data, latest_timestamp := Some (clk (clock_reads w)),
                      last_signal_info := Some info\<rparr>)"
  using assms by (cases ps) (auto simp add: update_globals_def datetime_now_def dict_item_def py_index_def)

lemma update_globals_history_length:
  "length (log_history w) \<le> 5 \<Longrightarrow> length (log_history (snd (update_globals clk w data info))) \<le> 5"
  by (auto simp add: update_globals_def datetime_now_def deque_append_def Let_def
      split: outcome.splits prod.splits)

lemma show_signal_none: "show_signal w = Return Waiting \<longleftrightarrow> last_signal_info w = None"
  by (auto simp add: show_signal_def split: option.splits outcome.splits)

lemma show_signal_two:
  "last_signal_info w = Some info \<Longrightarrow> pedestrian_signals info = Some ps \<Longrightarrow> 2 \<le> length ps \<Longrightarrow>
     show_signal w = Return (SignalLine (ps ! 0) (ps ! 1))"
  by (auto simp add: show_signal_def dict_item_def py_index_def)

lemma show_signal_cong:
  "last_signal_info w' = last_signal_info w \<Longrightarrow> show_signal w' = show_signal w"
  by (simp add: show_signal_def)

lemma handle_packet_frame:
  assumes "\<forall>info. process_pics data = Return info \<longrightarrow> message_type info \<noteq> 2"
  shows "last_signal_info (snd (handle_packet clk w data)) = last_signal_info w
         \<and> log_history (snd (handle_packet clk w data)) = log_history w"
proof (cases "process_pics data")
  case (Raise e)
  then show ?thesis by (simp add: handle_packet_def)
next
  case (Return info)
  with assms have "message_type info \<noteq> 2" by simp
  with Return show ?thesis
    by (simp add: handle_packet_def update_globals_other dict_truthy_def datetime_now_def Let_def
        split: outcome.splits)
qed

lemma handle_packet_history_length:
  assumes "length (log_history w) \<le> 5"
  shows "length (log_history (snd (handle_packet clk w data))) \<le> 5"
proof (cases "process_pics data")
  case (Raise e)
  with assms show ?thesis by (simp add: handle_packet_def)
next
  case (Return info)
  obtain r w1 where u: "update_globals clk w data info = (r, w1)" by (cases "update_globals clk w data info")
  with update_globals_history_length [OF assms, of clk data info] have "length (log_history w1) \<le> 5" by simp
  with Return u show ?thesis
    by (simp add: handle_packet_def dict_truthy_def datetime_now_def Let_def
        split: outcome.splits)
qed


lemma signal_loop_take:
  "signal_loop data [0..<6] [] = map spec_phase (take 6 (drop 10 data))"
  by (auto simp add: signal_loop_eq filter_upt_lt decode_signal_spec list_eq_iff_nth_eq)

lemma type2_record:
  assumes "4 \<le> length data" and "data ! 2 = 2"
  shows "process_pics data =
           Return \<lparr>message_type = 2, message_id = data ! 3,
                   intersection_id = concat (map hex2 (py_slice data 6 10)),
                   identifier = None, latitude = None, longitude = None,
                   pedestrian_signals = Some (map spec_phase (take 6 (drop 10 data)))\<rparr>"
  using assms by (simp add: process_pics_def py_index_def signal_loop_take)

lemma take6_two:
  assumes a: "12 \<le> length data"
  obtains ps where
    "map spec_phase (take 6 (drop 10 data)) = spec_phase (data ! 10) # spec_phase (data ! 11) # ps"
proof -
  let ?xs = "drop 10 data"
  from a have "2 \<le> length ?xs" by simp
  then obtain x y zs where xs: "?xs = x # y # zs"
    by (cases ?xs; cases "tl ?xs") auto
  then have "x = ?xs ! 0" and "y = ?xs ! 1" by simp_all
  with a have "x = data ! 10" and "y = data ! 11" by simp_all
  with xs have "map spec_phase (take 6 (drop 10 data)) =
      spec_phase (data ! 10) # spec_phase (data ! 11) # map spec_phase (take 4 zs)"
    by (simp add: numeral_eq_Suc)
  then show ?thesis by (rule that)
qed

lemma type2_two_phases:
  assumes "12 \<le> length data" and "data ! 2 = 2"
  obtains info ps where "process_pics data = Return info" and "message_type info = 2"
    and "pedestrian_signals info = Some (spec_phase (data ! 10) # spec_phase (data ! 11) # ps)"
proof -
  from assms(1) obtain ps where
    ps: "map spec_phase (take 6 (drop 10 data)) = spec_phase (data ! 10) # spec_phase (data ! 11) # ps"
    by (rule take6_two)
  let ?info = "\<lparr>message_type = 2, message_id = data ! 3,
                   intersection_id = concat (map hex2 (py_slice data 6 10)),
                   identifier = None, latitude = None, longitude = None,
                   pedestrian_signals = Some (map spec_phase (take 6 (drop 10 data)))\<rparr>"
  from assms have "process_pics data = Return ?info"
    by (intro type2_record) simp_all
  moreover have "message_type ?info = 2" by simp
  moreover from ps have
    "pedestrian_signals ?info = Some (spec_phase (data ! 10) # spec_phase (data ! 11) # ps)"
    by simp
  ultimately show ?thesis by (rule that)
qed

lemma handle_packet_signal:
  assumes "12 \<le> length data" and "data ! 2 = 2"
  shows "\<exists>w'. handle_packet clk w data = (Return Next, w')
           \<and> clock_reads w' = clock_reads w + 2
           \<and> log_history w' = deque_append 5 (log_history w) (signal_entry (clk (clock_reads w)) data)
           \<and> show_signal w' = Return (SignalLine (spec_phase (data ! 10)) (spec_phase (data ! 11)))"
proof -
  from assms obtain info ps where p: "process_pics data = Return info"
    and mt: "message_type info = 2"
    and sig: "pedestrian_signals info = Some (spec_phase (data ! 10) # spec_phase (data ! 11) # ps)"
    by (rule type2_two_phases)
  note u = update_globals_signal [OF mt sig, of clk w data]
  show ?thesis
    by (simp add: handle_packet_def p u sig dict_truthy_def show_signal_def dict_item_def
        py_index_def datetime_now_def Let_def signal_entry_def)
qed

lemma detection_callback_skip:
  "\<forall>item \<in> set items. fst item \<noteq> 0x01CE \<Longrightarrow> detection_callback clk w items = (Return (), w)"
  by (induction items) auto

lemma detection_callback_frame:
  assumes "\<forall>item \<in> set items. fst item = 0x01CE \<longrightarrow>
             (\<forall>info. process_pics (snd item) = Return info \<longrightarrow> message_type info \<noteq> 2)"
  shows "last_signal_info (snd (detection_callback clk w items)) = last_signal_info w
         \<and> log_history (snd (detection_callback clk w items)) = log_history w"
  using assms
proof (induction items arbitrary: w)
  case Nil
  show ?case by simp
next
  case (Cons item items)
  obtain m d where item: "item = (m, d)" by (cases item)
  show ?case
  proof (cases "m = 0x01CE")
    case False
    with Cons item show ?thesis by simp
  next
    case True
    with Cons.prems item have nd: "\<forall>info. process_pics d = Return info \<longrightarrow> message_type info \<noteq> 2"
      by simp
    obtain r w' where h: "handle_packet clk w d = (r, w')" by (cases "handle_packet clk w d")
    with handle_packet_frame [OF nd, of clk w]
    have f: "last_signal_info w' = last_signal_info w" "log_history w' = log_history w"
      by simp_all
    from Cons.prems have "\<forall>item \<in> set items. fst item = 0x01CE \<longrightarrow>
             (\<forall>info. process_pics (snd item) = Return info \<longrightarrow> message_type info \<noteq> 2)"
      by simp
    from Cons.IH [OF this, of w'] f True item h show ?thesis
      by (simp split: outcome.splits flow.splits)
  qed
qed

lemma detection_callback_history_length:
  "length (log_history w) \<le> 5 \<Longrightarrow> length (log_history (snd (detection_callback clk w items))) \<le> 5"
proof (induction items arbitrary: w)
  case Nil
  then show ?case by simp
next
  case (Cons item items)
  obtain m d where item: "item = (m, d)" by (cases item)
  obtain r w' where h: "handle_packet clk w d = (r, w')" by (cases "handle_packet clk w d")
  with handle_packet_history_length [OF Cons.prems, of clk d]
  have "length (log_history w') \<le> 5" by simp
  with Cons item h show ?case
    by (simp split: outcome.splits flow.splits)
qed

lemma deliver_Cons: "deliver clk w (items # ads) = deliver clk (snd (detection_callback clk w items)) ads"
  by (simp add: deliver_def)

lemma deliver_Nil: "deliver clk w [] = w"
  by (simp add: deliver_def)

lemma deliver_frame:
  assumes "\<forall>items \<in> set ads. \<forall>item \<in> set items. fst item = 0x01CE \<longrightarrow>
             (\<forall>info. process_pics (snd item) = Return info \<longrightarrow> message_type info \<noteq> 2)"
  shows "last_signal_info (deliver clk w ads) = last_signal_info w
         \<and> log_history (deliver clk w ads) = log_history w"
  using assms
proof (induction ads arbitrary: w)
  case Nil
  show ?case by (simp add: deliver_Nil)
next
  case (Cons items ads)
  then show ?case
    using detection_callback_frame [of items clk w] by (simp add: deliver_Cons)
qed

lemma deliver_history_length:
  "length (log_history w) \<le> 5 \<Longrightarrow> length (log_history (deliver clk w ads)) \<le> 5"
  by (induction ads arbitrary: w) (simp_all add: deliver_Nil deliver_Cons detection_callback_history_length)


lemma deque_append_drop:
  "length h \<le> n \<Longrightarrow> deque_append n h e = drop (length (h @ [e]) - n) (h @ [e])"
proof (cases "length h = n")
  case True
  then have "length (h @ [e]) - n = 1" by simp
  then have "drop (length (h @ [e]) - n) (h @ [e]) = tl (h @ [e])"
    by (simp only: One_nat_def drop_Suc drop_0)
  moreover from True have "deque_append n h e = tl (h @ [e])"
    by (simp add: deque_append_def Let_def)
  ultimately show ?thesis by simp
next
  case False
  assume "length h \<le> n"
  with False show ?thesis by (simp add: deque_append_def Let_def)
qed

lemma length_deque_append: "length h \<le> n \<Longrightarrow> length (deque_append n h e) \<le> n"
  by (auto simp add: deque_append_def Let_def)

lemma drop_last_append:
  "drop (length (drop (length X - n) X @ Y) - n) (drop (length X - n) X @ Y) =
     drop (length (X @ Y) - n) (X @ Y)"
proof (cases "length X \<le> n")
  case True
  then show ?thesis by simp
next
  case False
  then have "length X + length Y - n = (length X - n) + length Y" by simp
  with False show ?thesis by (simp add: add.commute)
qed

lemma callback_signal:
  assumes "12 \<le> length d" and "d ! 2 = 2"
  shows "\<exists>w'. detection_callback clk w [(0x01CE, d)] = (Return (), w')
           \<and> clock_reads w' = clock_reads w + 2
           \<and> log_history w' = deque_append 5 (log_history w) (signal_entry (clk (clock_reads w)) d)
           \<and> show_signal w' = Return (SignalLine (spec_phase (d ! 10)) (spec_phase (d ! 11)))"
  using handle_packet_signal [OF assms, of clk w] by auto

lemma deliver_signals:
  assumes "\<forall>d \<in> set ds. 12 \<le> length d \<and> d ! 2 = 2" and "length (log_history w) \<le> 5"
  shows "log_history (deliver clk w (map (\<lambda>d. [(0x01CE, d)]) ds)) =
           drop (length (log_history w @ signal_entries clk (clock_reads w) ds) - 5)
             (log_history w @ signal_entries clk (clock_reads w) ds)"
  using assms
proof (induction ds arbitrary: w)
  case Nil
  then show ?case by (simp add: deliver_Nil)
next
  case (Cons d ds)
  let ?e = "signal_entry (clk (clock_reads w)) d"
  let ?h = "log_history w"
  from Cons.prems have d: "12 \<le> length d" "d ! 2 = 2" by simp_all
  from callback_signal [OF d, of clk w] obtain w' where
    cb: "detection_callback clk w [(0x01CE, d)] = (Return (), w')"
    and n: "clock_reads w' = clock_reads w + 2"
    and h: "log_history w' = deque_append 5 ?h ?e"
    by blast
  from h Cons.prems(2) have h': "log_history w' = drop (length (?h @ [?e]) - 5) (?h @ [?e])"
    by (simp only: deque_append_drop)
  from h Cons.prems(2) have len: "length (log_history w') \<le> 5"
    by (simp only: length_deque_append)
  from Cons.prems have "\<forall>d \<in> set ds. 12 \<le> length d \<and> d ! 2 = 2" by simp
  from Cons.IH [OF this len]
  have "log_history (deliver clk w' (map (\<lambda>d. [(0x01CE, d)]) ds)) =
      drop (length (log_history w' @ signal_entries clk (clock_reads w + 2) ds) - 5)
        (log_history w' @ signal_entries clk (clock_reads w + 2) ds)"
    by (simp only: n)
  also have "\<dots> = drop (length ((?h @ [?e]) @ signal_entries clk (clock_reads w + 2) ds) - 5)
        ((?h @ [?e]) @ signal_entries clk (clock_reads w + 2) ds)"
    unfolding h' by (rule drop_last_append)
  finally show ?case
    using cb by (simp add: deliver_Cons)
qed

lemma length_signal_entries: "length (signal_entries clk n ds) = length ds"
  by (induction ds arbitrary: n) simp_all

lemma update_globals_latest:
  "latest_info (snd (update_globals clk w data info)) = Some info
   \<and> latest_raw (snd (update_globals clk w data info)) = Some data
   \<and> clock_reads (snd (update_globals clk w data info)) = Suc (clock_reads w)"
  by (simp add: update_globals_def datetime_now_def Let_def split: outcome.splits)

lemma handle_packet_latest:
  assumes "process_pics data = Return info"
  shows "latest_info (snd (handle_packet clk w data)) = Some info
         \<and> latest_raw (snd (handle_packet clk w data)) = Some data"
proof -
  obtain r w1 where u: "update_globals clk w data info = (r, w1)"
    by (cases "update_globals clk w data info")
  with update_globals_latest [of clk w data info]
  have "latest_info w1 = Some info" and "latest_raw w1 = Some data" by simp_all
  with assms u show ?thesis
    by (simp add: handle_packet_def dict_truthy_def datetime_now_def Let_def split: outcome.splits)
qed

lemma handle_packet_raise: "process_pics data = Raise e \<Longrightarrow> handle_packet clk w data = (Raise e, w)"
  by (simp add: handle_packet_def)

lemma recent_entries_filter:
  "recent_entries window now h = filter (\<lambda>e. now - time e \<le> window) h"
  by (induction h) simp_all

lemma handle_packet_screen:
  assumes "process_pics data = Return info" and "handle_packet clk w data = (Return Next, w')"
  shows "log_history w' = log_history (snd (update_globals clk w data info))
         \<and> (\<exists>line. screen w' = [line, Packet data info]
               @ map HistoryLine (recent_entries (timedelta_seconds 30) (clk (Suc (clock_reads w))) (log_history w')))"
proof -
  obtain r w1 where u: "update_globals clk w data info = (r, w1)"
    by (cases "update_globals clk w data info")
  with update_globals_latest [of clk w data info]
  have c: "clock_reads w1 = Suc (clock_reads w)" by simp
  from assms u c show ?thesis
    by (auto simp add: handle_packet_def dict_truthy_def datetime_now_def Let_def
        split: outcome.splits)
qed

section \<open>The callback\<close>

lemma detection_callback_filter:
  "detection_callback clk w items =
     detection_callback clk w (filter (\<lambda>item. fst item = 0x01CE) items)"
proof (induction items arbitrary: w)
  case Nil
  show ?case by simp
next
  case (Cons item items)
  obtain m d where item: "item = (m, d)" by (cases item)
  show ?case
  proof (cases "m = 0x01CE")
    case False
    with Cons item show ?thesis by simp
  next
    case True
    with item Cons show ?thesis
      by (simp split: prod.splits outcome.splits flow.splits)
  qed
qed

lemma detection_callback_prefix:
  "\<forall>item \<in> set pre. fst item \<noteq> 0x01CE \<Longrightarrow>
     detection_callback clk w (pre @ items) = detection_callback clk w items"
  by (induction pre) auto

text \<open>
  C9. An entry of \<open>manufacturer_data\<close> whose identifier is not 0x01CE is skipped before
  anything is parsed, whatever its payload and wherever it sits: the callback does the
  same with and without such entries, and with only such entries it returns and leaves
  every global, the clock and the screen as they were. An entry with identifier 0x01CE is
  parsed, also behind skipped ones: what \<open>process_pics\<close> raises on it leaves the
  callback, and what it returns becomes \<open>latest_info\<close>.
\<close>

theorem vendor_filter:
  "detection_callback clk w items =
     detection_callback clk w (filter (\<lambda>item. fst item = 0x01CE) items)
   \<and> ((\<forall>item \<in> set items. fst item \<noteq> 0x01CE) \<longrightarrow>
        detection_callback clk w items = (Return (), w))
   \<and> ((\<forall>item \<in> set pre. fst item \<noteq> 0x01CE) \<longrightarrow>
        detection_callback clk w (pre @ (0x01CE, d) # rest) =
          (case handle_packet clk w d of
             (Raise e, w') \<Rightarrow> (Raise e, w')
           | (Return Stop, w') \<Rightarrow> (Return (), w')
           | (Return Next, w') \<Rightarrow> detection_callback clk w' rest)
        \<and> (process_pics d = Raise e \<longrightarrow>
             detection_callback clk w (pre @ (0x01CE, d) # rest) = (Raise e, w))
        \<and> (process_pics d = Return info \<and> (\<forall>item \<in> set rest. fst item \<noteq> 0x01CE) \<longrightarrow>
             latest_info (snd (detection_callback clk w (pre @ (0x01CE, d) # rest))) = Some info
             \<and> latest_raw (snd (detection_callback clk w (pre @ (0x01CE, d) # rest))) = Some d))"
proof (intro conjI impI)
  show "detection_callback clk w items =
     detection_callback clk w (filter (\<lambda>item. fst item = 0x01CE) items)"
    by (rule detection_callback_filter)
next
  assume "\<forall>item \<in> set items. fst item \<noteq> 0x01CE"
  then show "detection_callback clk w items = (Return (), w)"
    by (rule detection_callback_skip)
next
  assume pre: "\<forall>item \<in> set pre. fst item \<noteq> 0x01CE"
  then have skip: "detection_callback clk w (pre @ (0x01CE, d) # rest) =
      detection_callback clk w ((0x01CE, d) # rest)"
    by (rule detection_callback_prefix)
  show "detection_callback clk w (pre @ (0x01CE, d) # rest) =
          (case handle_packet clk w d of
             (Raise e, w') \<Rightarrow> (Raise e, w')
           | (Return Stop, w') \<Rightarrow> (Return (), w')
           | (Return Next, w') \<Rightarrow> detection_callback clk w' rest)"
    unfolding skip by simp
  show "detection_callback clk w (pre @ (0x01CE, d) # rest) = (Raise e, w)"
    if "process_pics d = Raise e"
    unfolding skip using that by (simp add: handle_packet_raise)
  show "latest_info (snd (detection_callback clk w (pre @ (0x01CE, d) # rest))) = Some info"
    and "latest_raw (snd (detection_callback clk w (pre @ (0x01CE, d) # rest))) = Some d"
    if a: "process_pics d = Return info \<and> (\<forall>item \<in> set rest. fst item \<noteq> 0x01CE)"
  proof -
    from a have p: "process_pics d = Return info"
      and r: "\<And>v. detection_callback clk v rest = (Return (), v)"
      by (simp_all add: detection_callback_skip)
    obtain o' w' where h: "handle_packet clk w d = (o', w')"
      by (cases "handle_packet clk w d")
    with handle_packet_latest [OF p, of clk w]
    have l: "latest_info w' = Some info" "latest_raw w' = Some d" by simp_all
    from h l r show "latest_info (snd (detection_callback clk w (pre @ (0x01CE, d) # rest))) = Some info"
      unfolding skip by (simp split: outcome.splits flow.splits)
    from h l r show "latest_raw (snd (detection_callback clk w (pre @ (0x01CE, d) # rest))) = Some d"
      unfolding skip by (simp split: outcome.splits flow.splits)
  qed
qed


theorem vendor_filter_witness:
  "detection_callback (\<lambda>n. int n) initial_world [(0x004C, []), (0x0006, [1, 2, 3])]
     = (Return (), initial_world)
   \<and> detection_callback (\<lambda>n. int n) initial_world
       [(0x004C, [1]), (0x01CE, [1, 2, 3]), (0x0006, [])]
     = (Raise IndexError, initial_world)
   \<and> detection_callback (\<lambda>n. int n) initial_world
       [(0x004C, [1]), (0x01CE, [0, 0, 9, 7, 0, 0, 1, 2, 3, 4]), (0x0006, [1, 2, 3])]
     = detection_callback (\<lambda>n. int n) initial_world [(0x01CE, [0, 0, 9, 7, 0, 0, 1, 2, 3, 4])]
   \<and> latest_raw (snd (detection_callback (\<lambda>n. int n) initial_world
        [(0x004C, [1]), (0x01CE, [0, 0, 9, 7, 0, 0, 1, 2, 3, 4]), (0x0006, [1, 2, 3])]))
     = Some [0, 0, 9, 7, 0, 0, 1, 2, 3, 4]
   \<and> latest_info (snd (detection_callback (\<lambda>n. int n) initial_world
        [(0x004C, [1]), (0x01CE, [0, 0, 9, 7, 0, 0, 1, 2, 3, 4]), (0x0006, [1, 2, 3])]))
     = Some \<lparr>message_type = 9, message_id = 7, intersection_id = ''01020304'',
             identifier = None, latitude = None, longitude = None, pedestrian_signals = None\<rparr>"
proof -
  let ?clk = "\<lambda>n. int n"
  let ?d = "[0, 0, 9, 7, 0, 0, 1, 2, 3, 4 :: byte]"
  let ?pre = "[(0x004C :: nat, [1 :: byte])]"
  let ?rest = "[(0x0006 :: nat, [1, 2, 3 :: byte])]"
  have a: "\<forall>item \<in> set [(0x004C :: nat, [] :: byte list), (0x0006, [1, 2, 3])]. fst item \<noteq> 0x01CE"
    by simp
  have pre: "\<forall>item \<in> set ?pre. fst item \<noteq> 0x01CE"
    by simp
  have rest: "\<forall>item \<in> set ?rest. fst item \<noteq> 0x01CE"
    by simp
  have b: "process_pics [1, 2, 3] = Raise IndexError"
    by code_simp
  have c: "process_pics ?d = Return \<lparr>message_type = 9, message_id = 7, intersection_id = ''01020304'',
             identifier = None, latitude = None, longitude = None, pedestrian_signals = None\<rparr>"
    by code_simp
  from a vendor_filter [where items = "[(0x004C, []), (0x0006, [1, 2, 3])]" and clk = ?clk
      and w = initial_world]
  have 1: "detection_callback ?clk initial_world [(0x004C, []), (0x0006, [1, 2, 3])]
     = (Return (), initial_world)"
    by blast
  from pre b vendor_filter [where clk = ?clk and w = initial_world and pre = ?pre
      and d = "[1, 2, 3]" and e = IndexError and rest = "[(0x0006, [])]"]
  have 2: "detection_callback ?clk initial_world (?pre @ (0x01CE, [1, 2, 3]) # [(0x0006, [])])
     = (Raise IndexError, initial_world)"
    by blast
  from vendor_filter [where clk = ?clk and w = initial_world
      and items = "?pre @ (0x01CE, ?d) # ?rest"]
  have 3: "detection_callback ?clk initial_world (?pre @ (0x01CE, ?d) # ?rest)
     = detection_callback ?clk initial_world [(0x01CE, ?d)]"
    by simp
  from pre rest c vendor_filter [where clk = ?clk and w = initial_world and pre = ?pre
      and d = ?d and info = "\<lparr>message_type = 9, message_id = 7, intersection_id = ''01020304'',
             identifier = None, latitude = None, longitude = None, pedestrian_signals = None\<rparr>" and rest = ?rest]
  have 4: "latest_info (snd (detection_callback ?clk initial_world (?pre @ (0x01CE, ?d) # ?rest)))
       = Some \<lparr>message_type = 9, message_id = 7, intersection_id = ''01020304'',
             identifier = None, latitude = None, longitude = None, pedestrian_signals = None\<rparr>
     \<and> latest_raw (snd (detection_callback ?clk initial_world (?pre @ (0x01CE, ?d) # ?rest)))
       = Some ?d"
    by blast
  from 1 2 3 4 show ?thesis
    by (simp only: append.simps)
qed

lemma handle_packet_few_phases:
  assumes "4 \<le> length data" and "length data < 12" and "data ! 2 = 2"
  shows "\<exists>info. process_pics data = Return info
           \<and> handle_packet clk w data =
               (Raise IndexError,
                w\<lparr>clock_reads := Suc (clock_reads w), latest_info := Some info,
                   latest_raw := Some data, latest_timestamp := Some (clk (clock_reads w)),
                   last_signal_info := Some info\<rparr>)"
proof -
  let ?info = "\<lparr>message_type = 2, message_id = data ! 3,
                intersection_id = concat (map hex2 (py_slice data 6 10)),
                identifier = None, latitude = None, longitude = None,
                pedestrian_signals = Some (map spec_phase (take 6 (drop 10 data)))\<rparr>"
  from assms have p: "process_pics data = Return ?info"
    by (intro type2_record) simp_all
  have mt: "message_type ?info = 2"
    by simp
  have sig: "pedestrian_signals ?info = Some (map spec_phase (take 6 (drop 10 data)))"
    by simp
  from assms have few: "length (map spec_phase (take 6 (drop 10 data))) < 2"
    by simp
  note u = update_globals_few [OF mt sig few, of clk w data]
  have "handle_packet clk w data =
      (Raise IndexError,
       w\<lparr>clock_reads := Suc (clock_reads w), latest_info := Some ?info,
          latest_raw := Some data, latest_timestamp := Some (clk (clock_reads w)),
          last_signal_info := Some ?info\<rparr>)"
    unfolding handle_packet_def p by (simp only: u outcome.case dict_truthy_def simp_thms if_False prod.case)
  with p show ?thesis by blast
qed

text \<open>
  C3. A type 2 record with fewer than two phases becomes \<open>last_signal_info\<close> and adds
  nothing to the history, and the callback should not fail on it. The callback reads
  \<open>pedestrian_signals[0]\<close> and \<open>[1]\<close> unguarded: on a payload with one phase it raises
  IndexError after it has stored the record, and the next callback, for an identifier
  packet, raises again when it prints the held signal.
\<close>

theorem few_phases_raise:
  "detection_callback (\<lambda>n. int n) initial_world [(0x01CE, [0, 0, 2, 7, 0, 0, 1, 2, 3, 4, 0x13])] =
     (Raise IndexError,
      initial_world
        \<lparr>latest_info := Some \<lparr>message_type = 2, message_id = 7, intersection_id = ''01020304'',
             identifier = None, latitude = None, longitude = None,
             pedestrian_signals = Some [\<lparr>remaining_time = 2, signal_state = Green\<rparr>]\<rparr>,
         latest_raw := Some [0, 0, 2, 7, 0, 0, 1, 2, 3, 4, 0x13],
         latest_timestamp := Some 0,
         last_signal_info := Some \<lparr>message_type = 2, message_id = 7, intersection_id = ''01020304'',
             identifier = None, latitude = None, longitude = None,
             pedestrian_signals = Some [\<lparr>remaining_time = 2, signal_state = Green\<rparr>]\<rparr>,
         clock_reads := 1\<rparr>)
   \<and> fst (detection_callback (\<lambda>n. int n)
          (snd (detection_callback (\<lambda>n. int n) initial_world
                  [(0x01CE, [0, 0, 2, 7, 0, 0, 1, 2, 3, 4, 0x13])]))
          [(0x01CE, [0, 0, 0, 8, 0, 0, 1, 2, 3, 4, 0x41])]) = Raise IndexError"
  by code_simp

text \<open>
  C5. Hold the last value. A packet that does not decode to a type 2 record leaves
  \<open>last_signal_info\<close> and the history as they were, in every state. So after a type 2
  packet with two phases or more, followed by any packets that decode to other types, the
  signal line still shows the first two phases of that packet. The waiting message is
  shown only when no signal record is held, hence only when none with two phases is.
\<close>

theorem hold_last_value:
  assumes "\<forall>d \<in> set ds. \<exists>info. process_pics d = Return info \<and> message_type info \<noteq> 2"
  shows "last_signal_info (deliver clk w (map (\<lambda>d. [(0x01CE, d)]) ds)) = last_signal_info w
         \<and> log_history (deliver clk w (map (\<lambda>d. [(0x01CE, d)]) ds)) = log_history w
         \<and> (12 \<le> length d0 \<and> d0 ! 2 = 2 \<longrightarrow>
              show_signal (deliver clk w (map (\<lambda>d. [(0x01CE, d)]) (d0 # ds))) =
                Return (SignalLine (spec_phase (d0 ! 10)) (spec_phase (d0 ! 11))))
         \<and> (show_signal w = Return Waiting \<longleftrightarrow> last_signal_info w = None)
         \<and> (show_signal w = Return Waiting \<longrightarrow>
              \<not> (\<exists>s ps. last_signal_info w = Some s \<and> pedestrian_signals s = Some ps
                         \<and> 2 \<le> length ps))"
proof -
  let ?ads = "map (\<lambda>d. [(0x01CE :: nat, d)]) ds"
  from assms have non: "\<forall>items \<in> set ?ads. \<forall>item \<in> set items. fst item = 0x01CE \<longrightarrow>
             (\<forall>info. process_pics (snd item) = Return info \<longrightarrow> message_type info \<noteq> 2)"
    by auto
  have frame: "\<And>v. last_signal_info (deliver clk v ?ads) = last_signal_info v
                   \<and> log_history (deliver clk v ?ads) = log_history v"
    using deliver_frame [OF non] by blast
  have held: "show_signal (deliver clk w (map (\<lambda>d. [(0x01CE, d)]) (d0 # ds))) =
                Return (SignalLine (spec_phase (d0 ! 10)) (spec_phase (d0 ! 11)))"
    if "12 \<le> length d0" and "d0 ! 2 = 2"
  proof -
    from callback_signal [OF that, of clk w] obtain w' where
      cb: "detection_callback clk w [(0x01CE, d0)] = (Return (), w')"
      and s: "show_signal w' = Return (SignalLine (spec_phase (d0 ! 10)) (spec_phase (d0 ! 11)))"
      by blast
    from frame [of w'] have "show_signal (deliver clk w' ?ads) = show_signal w'"
      by (intro show_signal_cong) simp
    with cb s show ?thesis by (simp add: deliver_Cons)
  qed
  have none: "show_signal w = Return Waiting \<longleftrightarrow> last_signal_info w = None"
    by (rule show_signal_none)
  from frame [of w] held none show ?thesis by auto
qed


theorem hold_last_value_witness:
  "process_pics [0, 0, 0, 8, 0, 0, 1, 2, 3, 4, 0x41] =
      Return \<lparr>message_type = 0, message_id = 8, intersection_id = ''01020304'',
              identifier = Some [0x41], latitude = None, longitude = None,
              pedestrian_signals = None\<rparr>
   \<and> process_pics [0, 0, 9, 8, 0, 0, 1, 2, 3, 4] =
      Return \<lparr>message_type = 9, message_id = 8, intersection_id = ''01020304'',
              identifier = None, latitude = None, longitude = None,
              pedestrian_signals = None\<rparr>
   \<and> 12 \<le> length [0, 0, 2, 7, 0, 0, 1, 2, 3, 4, 0x13, 0x85 :: byte]
   \<and> [0, 0, 2, 7, 0, 0, 1, 2, 3, 4, 0x13, 0x85 :: byte] ! 2 = 2
   \<and> show_signal (deliver (\<lambda>n. int n) initial_world
         (map (\<lambda>d. [(0x01CE, d)])
            [[0, 0, 2, 7, 0, 0, 1, 2, 3, 4, 0x13, 0x85],
             [0, 0, 0, 8, 0, 0, 1, 2, 3, 4, 0x41], [0, 0, 9, 8, 0, 0, 1, 2, 3, 4]])) =
       Return (SignalLine \<lparr>remaining_time = 2, signal_state = Green\<rparr>
                          \<lparr>remaining_time = - 1, signal_state = Unknown\<rparr>)
   \<and> last_signal_info (deliver (\<lambda>n. int n) initial_world
         (map (\<lambda>d. [(0x01CE, d)])
            [[0, 0, 0, 8, 0, 0, 1, 2, 3, 4, 0x41], [0, 0, 9, 8, 0, 0, 1, 2, 3, 4]])) = None
   \<and> log_history (deliver (\<lambda>n. int n) initial_world
         (map (\<lambda>d. [(0x01CE, d)])
            [[0, 0, 0, 8, 0, 0, 1, 2, 3, 4, 0x41], [0, 0, 9, 8, 0, 0, 1, 2, 3, 4]])) = []
   \<and> show_signal initial_world = Return Waiting"
proof -
  let ?ds = "[[0, 0, 0, 8, 0, 0, 1, 2, 3, 4, 0x41], [0, 0, 9, 8, 0, 0, 1, 2, 3, 4 :: byte]]"
  let ?d0 = "[0, 0, 2, 7, 0, 0, 1, 2, 3, 4, 0x13, 0x85 :: byte]"
  have a: "process_pics [0, 0, 0, 8, 0, 0, 1, 2, 3, 4, 0x41] =
      Return \<lparr>message_type = 0, message_id = 8, intersection_id = ''01020304'',
              identifier = Some [0x41], latitude = None, longitude = None,
              pedestrian_signals = None\<rparr>"
    by code_simp
  have b: "process_pics [0, 0, 9, 8, 0, 0, 1, 2, 3, 4] =
      Return \<lparr>message_type = 9, message_id = 8, intersection_id = ''01020304'',
              identifier = None, latitude = None, longitude = None,
              pedestrian_signals = None\<rparr>"
    by code_simp
  have h: "\<forall>d \<in> set ?ds. \<exists>info. process_pics d = Return info \<and> message_type info \<noteq> 2"
    by (simp add: a b)
  have p: "spec_phase 0x13 = \<lparr>remaining_time = 2, signal_state = Green\<rparr>"
    "spec_phase 0x85 = \<lparr>remaining_time = - 1, signal_state = Unknown\<rparr>"
    by (simp_all add: spec_phase_def high_nibble_def low_nibble_def)
  have i: "last_signal_info initial_world = None" "log_history initial_world = []"
    by (simp_all add: initial_world_def)
  from hold_last_value [OF h, of "\<lambda>n. int n" initial_world ?d0] p i show ?thesis
    by (simp add: a b)
qed

text \<open>
  C6. The history never holds more than five entries: it is empty at the start and every
  callback keeps the bound. Six consecutive type 2 packets with two phases or more leave
  exactly five entries, those of the last five packets in the order of arrival, the first
  one gone.
\<close>

theorem history_capacity:
  "length (log_history initial_world) \<le> 5
   \<and> (length (log_history w) \<le> 5 \<longrightarrow>
        length (log_history (snd (detection_callback clk w items))) \<le> 5)
   \<and> (length (log_history w) \<le> 5 \<and> length ds = 6 \<and> (\<forall>d \<in> set ds. 12 \<le> length d \<and> d ! 2 = 2) \<longrightarrow>
        log_history (deliver clk w (map (\<lambda>d. [(0x01CE, d)]) ds)) =
          tl (signal_entries clk (clock_reads w) ds)
        \<and> length (log_history (deliver clk w (map (\<lambda>d. [(0x01CE, d)]) ds))) = 5)"
proof (intro conjI impI)
  show "length (log_history initial_world) \<le> 5"
    by (simp add: initial_world_def)
next
  assume "length (log_history w) \<le> 5"
  then show "length (log_history (snd (detection_callback clk w items))) \<le> 5"
    by (rule detection_callback_history_length)
next
  assume a: "length (log_history w) \<le> 5 \<and> length ds = 6 \<and> (\<forall>d \<in> set ds. 12 \<le> length d \<and> d ! 2 = 2)"
  let ?new = "signal_entries clk (clock_reads w) ds"
  from a have l: "length ?new = 6" by (simp add: length_signal_entries)
  from a have "log_history (deliver clk w (map (\<lambda>d. [(0x01CE, d)]) ds)) =
      drop (length (log_history w @ ?new) - 5) (log_history w @ ?new)"
    by (intro deliver_signals) simp_all
  also from l have "\<dots> = drop (Suc 0) ?new"
    by simp
  also have "\<dots> = tl ?new"
    by (simp add: drop_Suc)
  finally show h: "log_history (deliver clk w (map (\<lambda>d. [(0x01CE, d)]) ds)) = tl ?new" .
  from l show "length (log_history (deliver clk w (map (\<lambda>d. [(0x01CE, d)]) ds))) = 5"
    unfolding h by simp
qed

theorem history_capacity_witness:
  "length (log_history initial_world) \<le> 5
   \<and> length (log_history (snd (detection_callback (\<lambda>n. int n) initial_world
          [(0x01CE, [0, 0, 2, 1, 0, 0, 1, 2, 3, 4, 0x13, 1])]))) \<le> 5
   \<and> length
     [[0, 0, 2, 1, 0, 0, 1, 2, 3, 4, 0x13, 1],
      [0, 0, 2, 2, 0, 0, 1, 2, 3, 4, 0x13, 2],
      [0, 0, 2, 3, 0, 0, 1, 2, 3, 4, 0x13, 3],
      [0, 0, 2, 4, 0, 0, 1, 2, 3, 4, 0x13, 4],
      [0, 0, 2, 5, 0, 0, 1, 2, 3, 4, 0x13, 5],
      [0, 0, 2, 6, 0, 0, 1, 2, 3, 4, 0x13, 6] :: byte list] = 6
   \<and> log_history (deliver (\<lambda>n. int n) initial_world (map (\<lambda>d. [(0x01CE, d)])
     [[0, 0, 2, 1, 0, 0, 1, 2, 3, 4, 0x13, 1],
      [0, 0, 2, 2, 0, 0, 1, 2, 3, 4, 0x13, 2],
      [0, 0, 2, 3, 0, 0, 1, 2, 3, 4, 0x13, 3],
      [0, 0, 2, 4, 0, 0, 1, 2, 3, 4, 0x13, 4],
      [0, 0, 2, 5, 0, 0, 1, 2, 3, 4, 0x13, 5],
      [0, 0, 2, 6, 0, 0, 1, 2, 3, 4, 0x13, 6] :: byte list])) =
     [\<lparr>time = 2, s1 = \<lparr>remaining_time = 2, signal_state = Green\<rparr>,
        s2 = \<lparr>remaining_time = 1, signal_state = BlinkGreen\<rparr>\<rparr>,
      \<lparr>time = 4, s1 = \<lparr>remaining_time = 2, signal_state = Green\<rparr>,
        s2 = \<lparr>remaining_time = 1, signal_state = Green\<rparr>\<rparr>,
      \<lparr>time = 6, s1 = \<lparr>remaining_time = 2, signal_state = Green\<rparr>,
        s2 = \<lparr>remaining_time = 1, signal_state = NoneState\<rparr>\<rparr>,
      \<lparr>time = 8, s1 = \<lparr>remaining_time = 2, signal_state = Green\<rparr>,
        s2 = \<lparr>remaining_time = 1, signal_state = Unknown\<rparr>\<rparr>,
      \<lparr>time = 10, s1 = \<lparr>remaining_time = 2, signal_state = Green\<rparr>,
        s2 = \<lparr>remaining_time = 1, signal_state = Unknown\<rparr>\<rparr>]"
proof -
  let ?ds = "[[0, 0, 2, 1, 0, 0, 1, 2, 3, 4, 0x13, 1],
      [0, 0, 2, 2, 0, 0, 1, 2, 3, 4, 0x13, 2],
      [0, 0, 2, 3, 0, 0, 1, 2, 3, 4, 0x13, 3],
      [0, 0, 2, 4, 0, 0, 1, 2, 3, 4, 0x13, 4],
      [0, 0, 2, 5, 0, 0, 1, 2, 3, 4, 0x13, 5],
      [0, 0, 2, 6, 0, 0, 1, 2, 3, 4, 0x13, 6] :: byte list]"
  have h: "length (log_history initial_world) \<le> 5"
    by (simp add: initial_world_def)
  have c: "clock_reads initial_world = 0"
    by (simp add: initial_world_def)
  have l: "length ?ds = 6"
    by simp
  have t: "\<forall>d \<in> set ?ds. 12 \<le> length d \<and> d ! 2 = 2"
    by simp
  have p: "spec_phase 0x13 = \<lparr>remaining_time = 2, signal_state = Green\<rparr>"
    "spec_phase 2 = \<lparr>remaining_time = 1, signal_state = BlinkGreen\<rparr>"
    "spec_phase 3 = \<lparr>remaining_time = 1, signal_state = Green\<rparr>"
    "spec_phase 4 = \<lparr>remaining_time = 1, signal_state = NoneState\<rparr>"
    "spec_phase 5 = \<lparr>remaining_time = 1, signal_state = Unknown\<rparr>"
    "spec_phase 6 = \<lparr>remaining_time = 1, signal_state = Unknown\<rparr>"
    by (simp_all add: spec_phase_def high_nibble_def low_nibble_def)
  have e: "tl (signal_entries (\<lambda>n. int n) 0 ?ds) =
     [\<lparr>time = 2, s1 = \<lparr>remaining_time = 2, signal_state = Green\<rparr>,
        s2 = \<lparr>remaining_time = 1, signal_state = BlinkGreen\<rparr>\<rparr>,
      \<lparr>time = 4, s1 = \<lparr>remaining_time = 2, signal_state = Green\<rparr>,
        s2 = \<lparr>remaining_time = 1, signal_state = Green\<rparr>\<rparr>,
      \<lparr>time = 6, s1 = \<lparr>remaining_time = 2, signal_state = Green\<rparr>,
        s2 = \<lparr>remaining_time = 1, signal_state = NoneState\<rparr>\<rparr>,
      \<lparr>time = 8, s1 = \<lparr>remaining_time = 2, signal_state = Green\<rparr>,
        s2 = \<lparr>remaining_time = 1, signal_state = Unknown\<rparr>\<rparr>,
      \<lparr>time = 10, s1 = \<lparr>remaining_time = 2, signal_state = Green\<rparr>,
        s2 = \<lparr>remaining_time = 1, signal_state = Unknown\<rparr>\<rparr>]"
    by (simp add: signal_entry_def p)
  from history_capacity [of initial_world "\<lambda>n. int n"
      "[(0x01CE, [0, 0, 2, 1, 0, 0, 1, 2, 3, 4, 0x13, 1])]" ?ds] h l t
  have "length (log_history (snd (detection_callback (\<lambda>n. int n) initial_world
          [(0x01CE, [0, 0, 2, 1, 0, 0, 1, 2, 3, 4, 0x13, 1])]))) \<le> 5"
    and "log_history (deliver (\<lambda>n. int n) initial_world (map (\<lambda>d. [(0x01CE, d)]) ?ds)) =
          tl (signal_entries (\<lambda>n. int n) (clock_reads initial_world) ?ds)"
    by blast+
  with h l t show ?thesis
    by (simp only: c e simp_thms)
qed

text \<open>
  C7. For every history, window and time, the recent entries are exactly the entries
  with \<open>now - time \<le> window\<close>, in the order of the history, the bound included. The
  callback prints them for a window of 30 seconds and the second reading of its clock, and
  reading them leaves the stored history as the update left it.
\<close>

theorem recent_history_window:
  "recent_entries window now h = filter (\<lambda>e. now - time e \<le> window) h
   \<and> (process_pics data = Return info \<and> handle_packet clk w data = (Return Next, w') \<longrightarrow>
        log_history w' = log_history (snd (update_globals clk w data info))
        \<and> (\<exists>line. screen w' = [line, Packet data info]
              @ map HistoryLine
                  (filter (\<lambda>e. clk (Suc (clock_reads w)) - time e \<le> timedelta_seconds 30)
                     (log_history w'))))"
proof (intro conjI impI)
  show "recent_entries window now h = filter (\<lambda>e. now - time e \<le> window) h"
    by (rule recent_entries_filter)
next
  assume a: "process_pics data = Return info \<and> handle_packet clk w data = (Return Next, w')"
  then have s: "log_history w' = log_history (snd (update_globals clk w data info))
         \<and> (\<exists>line. screen w' = [line, Packet data info]
               @ map HistoryLine (recent_entries (timedelta_seconds 30) (clk (Suc (clock_reads w))) (log_history w')))"
    by (intro handle_packet_screen) simp_all
  from s show "log_history w' = log_history (snd (update_globals clk w data info))"
    by (rule conjunct1)
  from s have "\<exists>line. screen w' = [line, Packet data info]
               @ map HistoryLine (recent_entries (timedelta_seconds 30) (clk (Suc (clock_reads w))) (log_history w'))"
    by (rule conjunct2)
  then show "\<exists>line. screen w' = [line, Packet data info]
              @ map HistoryLine
                  (filter (\<lambda>e. clk (Suc (clock_reads w)) - time e \<le> timedelta_seconds 30)
                     (log_history w'))"
    by (simp only: recent_entries_filter)
qed

theorem recent_history_window_witness:
  "recent_entries (timedelta_seconds 30) 45000000 [\<lparr>time = 0, s1 = \<lparr>remaining_time = 2, signal_state = Green\<rparr>, s2 = \<lparr>remaining_time = 1, signal_state = Red\<rparr>\<rparr>, \<lparr>time = 10000000, s1 = \<lparr>remaining_time = 2, signal_state = Green\<rparr>, s2 = \<lparr>remaining_time = 1, signal_state = Red\<rparr>\<rparr>, \<lparr>time = 40000000, s1 = \<lparr>remaining_time = 2, signal_state = Green\<rparr>, s2 = \<lparr>remaining_time = 1, signal_state = Red\<rparr>\<rparr>] = [\<lparr>time = 40000000, s1 = \<lparr>remaining_time = 2, signal_state = Green\<rparr>, s2 = \<lparr>remaining_time = 1, signal_state = Red\<rparr>\<rparr>]
   \<and> recent_entries (timedelta_seconds 30) 40000000 [\<lparr>time = 0, s1 = \<lparr>remaining_time = 2, signal_state = Green\<rparr>, s2 = \<lparr>remaining_time = 1, signal_state = Red\<rparr>\<rparr>, \<lparr>time = 10000000, s1 = \<lparr>remaining_time = 2, signal_state = Green\<rparr>, s2 = \<lparr>remaining_time = 1, signal_state = Red\<rparr>\<rparr>, \<lparr>time = 40000000, s1 = \<lparr>remaining_time = 2, signal_state = Green\<rparr>, s2 = \<lparr>remaining_time = 1, signal_state = Red\<rparr>\<rparr>] = [\<lparr>time = 10000000, s1 = \<lparr>remaining_time = 2, signal_state = Green\<rparr>, s2 = \<lparr>remaining_time = 1, signal_state = Red\<rparr>\<rparr>, \<lparr>time = 40000000, s1 = \<lparr>remaining_time = 2, signal_state = Green\<rparr>, s2 = \<lparr>remaining_time = 1, signal_state = Red\<rparr>\<rparr>]
   \<and> process_pics [0, 0, 0, 8, 0, 0, 1, 2, 3, 4, 0x41] = Return \<lparr>message_type = 0, message_id = 8, intersection_id = ''01020304'',
          identifier = Some [0x41], latitude = None, longitude = None,
          pedestrian_signals = None\<rparr>
   \<and> fst (handle_packet (\<lambda>n. 40000000 + int n) (initial_world\<lparr>log_history := [\<lparr>time = 0, s1 = \<lparr>remaining_time = 2, signal_state = Green\<rparr>, s2 = \<lparr>remaining_time = 1, signal_state = Red\<rparr>\<rparr>, \<lparr>time = 10000000, s1 = \<lparr>remaining_time = 2, signal_state = Green\<rparr>, s2 = \<lparr>remaining_time = 1, signal_state = Red\<rparr>\<rparr>, \<lparr>time = 40000000, s1 = \<lparr>remaining_time = 2, signal_state = Green\<rparr>, s2 = \<lparr>remaining_time = 1, signal_state = Red\<rparr>\<rparr>]\<rparr>)
            [0, 0, 0, 8, 0, 0, 1, 2, 3, 4, 0x41]) = Return Next
   \<and> log_history (snd (handle_packet (\<lambda>n. 40000000 + int n)
          (initial_world\<lparr>log_history := [\<lparr>time = 0, s1 = \<lparr>remaining_time = 2, signal_state = Green\<rparr>, s2 = \<lparr>remaining_time = 1, signal_state = Red\<rparr>\<rparr>, \<lparr>time = 10000000, s1 = \<lparr>remaining_time = 2, signal_state = Green\<rparr>, s2 = \<lparr>remaining_time = 1, signal_state = Red\<rparr>\<rparr>, \<lparr>time = 40000000, s1 = \<lparr>remaining_time = 2, signal_state = Green\<rparr>, s2 = \<lparr>remaining_time = 1, signal_state = Red\<rparr>\<rparr>]\<rparr>)
          [0, 0, 0, 8, 0, 0, 1, 2, 3, 4, 0x41])) = [\<lparr>time = 0, s1 = \<lparr>remaining_time = 2, signal_state = Green\<rparr>, s2 = \<lparr>remaining_time = 1, signal_state = Red\<rparr>\<rparr>, \<lparr>time = 10000000, s1 = \<lparr>remaining_time = 2, signal_state = Green\<rparr>, s2 = \<lparr>remaining_time = 1, signal_state = Red\<rparr>\<rparr>, \<lparr>time = 40000000, s1 = \<lparr>remaining_time = 2, signal_state = Green\<rparr>, s2 = \<lparr>remaining_time = 1, signal_state = Red\<rparr>\<rparr>]
   \<and> (\<exists>line. screen (snd (handle_packet (\<lambda>n. 40000000 + int n)
          (initial_world\<lparr>log_history := [\<lparr>time = 0, s1 = \<lparr>remaining_time = 2, signal_state = Green\<rparr>, s2 = \<lparr>remaining_time = 1, signal_state = Red\<rparr>\<rparr>, \<lparr>time = 10000000, s1 = \<lparr>remaining_time = 2, signal_state = Green\<rparr>, s2 = \<lparr>remaining_time = 1, signal_state = Red\<rparr>\<rparr>, \<lparr>time = 40000000, s1 = \<lparr>remaining_time = 2, signal_state = Green\<rparr>, s2 = \<lparr>remaining_time = 1, signal_state = Red\<rparr>\<rparr>]\<rparr>)
          [0, 0, 0, 8, 0, 0, 1, 2, 3, 4, 0x41])) =
        [line, Packet [0, 0, 0, 8, 0, 0, 1, 2, 3, 4, 0x41] \<lparr>message_type = 0, message_id = 8, intersection_id = ''01020304'',
          identifier = Some [0x41], latitude = None, longitude = None,
          pedestrian_signals = None\<rparr>, HistoryLine \<lparr>time = 40000000, s1 = \<lparr>remaining_time = 2, signal_state = Green\<rparr>, s2 = \<lparr>remaining_time = 1, signal_state = Red\<rparr>\<rparr>])"
proof -
  let ?h = "[\<lparr>time = 0, s1 = \<lparr>remaining_time = 2, signal_state = Green\<rparr>, s2 = \<lparr>remaining_time = 1, signal_state = Red\<rparr>\<rparr>, \<lparr>time = 10000000, s1 = \<lparr>remaining_time = 2, signal_state = Green\<rparr>, s2 = \<lparr>remaining_time = 1, signal_state = Red\<rparr>\<rparr>, \<lparr>time = 40000000, s1 = \<lparr>remaining_time = 2, signal_state = Green\<rparr>, s2 = \<lparr>remaining_time = 1, signal_state = Red\<rparr>\<rparr>]"
  let ?w = "initial_world\<lparr>log_history := ?h\<rparr>"
  let ?d = "[0, 0, 0, 8, 0, 0, 1, 2, 3, 4, 0x41 :: byte]"
  let ?clk = "\<lambda>n. 40000000 + int n"
  let ?info = "\<lparr>message_type = 0, message_id = 8, intersection_id = ''01020304'',
          identifier = Some [0x41], latitude = None, longitude = None,
          pedestrian_signals = None\<rparr>"
  have a: "recent_entries (timedelta_seconds 30) 45000000 [\<lparr>time = 0, s1 = \<lparr>remaining_time = 2, signal_state = Green\<rparr>, s2 = \<lparr>remaining_time = 1, signal_state = Red\<rparr>\<rparr>, \<lparr>time = 10000000, s1 = \<lparr>remaining_time = 2, signal_state = Green\<rparr>, s2 = \<lparr>remaining_time = 1, signal_state = Red\<rparr>\<rparr>, \<lparr>time = 40000000, s1 = \<lparr>remaining_time = 2, signal_state = Green\<rparr>, s2 = \<lparr>remaining_time = 1, signal_state = Red\<rparr>\<rparr>] = [\<lparr>time = 40000000, s1 = \<lparr>remaining_time = 2, signal_state = Green\<rparr>, s2 = \<lparr>remaining_time = 1, signal_state = Red\<rparr>\<rparr>]"
    using recent_history_window [of "timedelta_seconds 30" 45000000 "[\<lparr>time = 0, s1 = \<lparr>remaining_time = 2, signal_state = Green\<rparr>, s2 = \<lparr>remaining_time = 1, signal_state = Red\<rparr>\<rparr>, \<lparr>time = 10000000, s1 = \<lparr>remaining_time = 2, signal_state = Green\<rparr>, s2 = \<lparr>remaining_time = 1, signal_state = Red\<rparr>\<rparr>, \<lparr>time = 40000000, s1 = \<lparr>remaining_time = 2, signal_state = Green\<rparr>, s2 = \<lparr>remaining_time = 1, signal_state = Red\<rparr>\<rparr>]"]
    by (simp add: timedelta_seconds_def)
  have b: "recent_entries (timedelta_seconds 30) 40000000 [\<lparr>time = 0, s1 = \<lparr>remaining_time = 2, signal_state = Green\<rparr>, s2 = \<lparr>remaining_time = 1, signal_state = Red\<rparr>\<rparr>, \<lparr>time = 10000000, s1 = \<lparr>remaining_time = 2, signal_state = Green\<rparr>, s2 = \<lparr>remaining_time = 1, signal_state = Red\<rparr>\<rparr>, \<lparr>time = 40000000, s1 = \<lparr>remaining_time = 2, signal_state = Green\<rparr>, s2 = \<lparr>remaining_time = 1, signal_state = Red\<rparr>\<rparr>] = [\<lparr>time = 10000000, s1 = \<lparr>remaining_time = 2, signal_state = Green\<rparr>, s2 = \<lparr>remaining_time = 1, signal_state = Red\<rparr>\<rparr>, \<lparr>time = 40000000, s1 = \<lparr>remaining_time = 2, signal_state = Green\<rparr>, s2 = \<lparr>remaining_time = 1, signal_state = Red\<rparr>\<rparr>]"
    using recent_history_window [of "timedelta_seconds 30" 40000000 "[\<lparr>time = 0, s1 = \<lparr>remaining_time = 2, signal_state = Green\<rparr>, s2 = \<lparr>remaining_time = 1, signal_state = Red\<rparr>\<rparr>, \<lparr>time = 10000000, s1 = \<lparr>remaining_time = 2, signal_state = Green\<rparr>, s2 = \<lparr>remaining_time = 1, signal_state = Red\<rparr>\<rparr>, \<lparr>time = 40000000, s1 = \<lparr>remaining_time = 2, signal_state = Green\<rparr>, s2 = \<lparr>remaining_time = 1, signal_state = Red\<rparr>\<rparr>]"]
    by (simp add: timedelta_seconds_def)
  have p: "process_pics ?d = Return ?info"
    by code_simp
  have f: "fst (handle_packet ?clk ?w ?d) = Return Next"
    by code_simp
  then have hp: "handle_packet ?clk ?w ?d = (Return Next, snd (handle_packet ?clk ?w ?d))"
    by (metis prod.collapse)
  have u: "log_history (snd (update_globals ?clk ?w ?d ?info)) = ?h"
    by (simp add: update_globals_other)
  have c: "clock_reads ?w = 0"
    by (simp add: initial_world_def)
  from recent_history_window [of _ _ _ ?d ?info ?clk ?w "snd (handle_packet ?clk ?w ?d)"] p hp
  have lh: "log_history (snd (handle_packet ?clk ?w ?d)) =
              log_history (snd (update_globals ?clk ?w ?d ?info))"
    and sc: "\<exists>line. screen (snd (handle_packet ?clk ?w ?d)) = [line, Packet ?d ?info]
              @ map HistoryLine
                  (filter (\<lambda>e. ?clk (Suc (clock_reads ?w)) - time e \<le> timedelta_seconds 30)
                     (log_history (snd (handle_packet ?clk ?w ?d))))"
    by blast+
  from lh have lh': "log_history (snd (handle_packet ?clk ?w ?d)) = ?h"
    by (simp only: u)
  from sc have "\<exists>line. screen (snd (handle_packet ?clk ?w ?d)) =
              [line, Packet ?d ?info, HistoryLine \<lparr>time = 40000000, s1 = \<lparr>remaining_time = 2, signal_state = Green\<rparr>, s2 = \<lparr>remaining_time = 1, signal_state = Red\<rparr>\<rparr>]"
    unfolding lh' by (simp add: c timedelta_seconds_def)
  with lh' have "log_history (snd (handle_packet ?clk ?w ?d)) = ?h
        \<and> (\<exists>line. screen (snd (handle_packet ?clk ?w ?d)) =
              [line, Packet ?d ?info, HistoryLine \<lparr>time = 40000000, s1 = \<lparr>remaining_time = 2, signal_state = Green\<rparr>, s2 = \<lparr>remaining_time = 1, signal_state = Red\<rparr>\<rparr>])"
    by (rule conjI)
  with a b p f show ?thesis by blast
qed

end
